theory Spec2Isabelle
  imports Main
begin

section \<open>JavaScript values\<close>

text \<open>
  The values that travel through the store: property values of entities, bound statement
  parameters and the cells of a result row. JavaScript numbers are modelled as unbounded
  integers (identifiers are integers; the rounding of doubles beyond \<open>2^53\<close> is not
  modelled). A \<open>Key\<close> and a \<open>Storable\<close> are objects, so a value holds a reference to them.
\<close>

datatype jsval =
    Undefined
  | Null
  | NaN
  | Num int
  | Bool bool
  | Str string
  | KeyV nat
  | StorableV nat
  | Arr "jsval list"

text \<open>\<open>v == null\<close> in JavaScript holds for \<open>null\<close> and \<open>undefined\<close> only.\<close>

fun is_nullish :: "jsval \<Rightarrow> bool" where
  "is_nullish Undefined = True"
| "is_nullish Null = True"
| "is_nullish _ = False"

function dec_nat :: "nat \<Rightarrow> string" where
  "dec_nat n = (if n < 10 then [''0123456789'' ! n]
                else dec_nat (n div 10) @ [''0123456789'' ! (n mod 10)])"
  by pat_completeness auto
termination
  by (relation "measure (\<lambda>n. n)") auto

declare dec_nat.simps [simp del]

definition dec_int :: "int \<Rightarrow> string" where
  "dec_int i = (if i < 0 then CHR ''-'' # dec_nat (nat (- i)) else dec_nat (nat i))"

fun join_with :: "string \<Rightarrow> string list \<Rightarrow> string" where
  "join_with sep [] = []"
| "join_with sep [x] = x"
| "join_with sep (x # y # ys) = x @ sep @ join_with sep (y # ys)"

text \<open>
  The text of a value, as \<open>String(v)\<close> and \<open>StringBuffer.append(Object)\<close> produce it. Keys
  and Storables are host objects whose \<open>toString\<close> is not part of the sources at hand; they
  print as a plain object does.
\<close>

fun js_text :: "jsval \<Rightarrow> string" where
  "js_text Undefined = ''undefined''"
| "js_text Null = ''null''"
| "js_text NaN = ''NaN''"
| "js_text (Num i) = dec_int i"
| "js_text (Bool b) = (if b then ''true'' else ''false'')"
| "js_text (Str s) = s"
| "js_text (KeyV k) = ''[object Object]''"
| "js_text (StorableV r) = ''[object Object]''"
| "js_text (Arr vs) = join_with '','' (map (\<lambda>v. if is_nullish v then [] else js_text v) vs)"

text \<open>\<open>v + offset\<close> with a numeric right operand, as \<open>generateId\<close> computes it.\<close>

fun js_add :: "jsval \<Rightarrow> int \<Rightarrow> jsval" where
  "js_add (Num i) off = Num (i + off)"
| "js_add Null off = Num off"
| "js_add (Bool b) off = Num ((if b then 1 else 0) + off)"
| "js_add Undefined off = NaN"
| "js_add NaN off = NaN"
| "js_add v off = Str (js_text v @ dec_int off)"

datatype error =
    JsError string      \<comment> \<open>\<open>throw new Error(msg)\<close>\<close>
  | TypeError           \<comment> \<open>a member access on \<open>null\<close> or \<open>undefined\<close>\<close>
  | SqlException        \<comment> \<open>a call into the driver threw\<close>

section \<open>The collaborators: dialect, mapping, key, transaction, driver\<close>

text \<open>
  Modelled from the spec: the \<open>TypeHandler\<close> of a dialect (section 4.3), whose
  implementations (\<open>./databases/h2\<close>, \<open>./databases/mysql5\<close>) are not among the sources.
  \<open>ct_get\<close> is what \<open>dataType.get(resultSet, columnName)\<close> makes of the cell it reads.
\<close>

record column_type =
  jdbcTypeNumber :: int
  getSql :: "int option \<Rightarrow> int option \<Rightarrow> int option \<Rightarrow> string"
  needsQuotes :: bool
  ct_quote :: "jsval \<Rightarrow> string"
  ct_get :: "jsval \<Rightarrow> jsval"

text \<open>Modelled from the spec: the dialect interface of section 4.3.\<close>

record dialect =
  quote :: "string \<Rightarrow> string"
  hasSequenceSupport :: bool
  getSqlNextSequenceValue :: "string \<Rightarrow> string"
  getEngineType :: "string option"
  getColumnType :: "string \<Rightarrow> column_type option"
  getColumnTypeByJdbcNumber :: "int \<Rightarrow> column_type option"

text \<open>A column type name may be \<open>undefined\<close>; no dialect knows a handler for that.\<close>

definition column_type_of :: "dialect \<Rightarrow> string option \<Rightarrow> column_type option" where
  "column_type_of d t = (case t of None \<Rightarrow> None | Some s \<Rightarrow> getColumnType d s)"

text \<open>
  Modelled from the spec: the \<open>Mapping\<close> of section 3 (\<open>ringo/storage/sql/mapping\<close> is not
  among the sources). The properties are an ordered mapping: \<open>for (name in properties)\<close>
  visits them in this order.
\<close>

record prop_spec =
  p_column :: "string option"
  p_type :: "string option"
  p_nullable :: "bool option"
  p_length :: "int option"
  p_precision :: "int option"
  p_scale :: "int option"
  p_default :: jsval
  p_unique :: "bool option"

record mapping =
  tableName :: string
  idColumnName :: string
  idSequenceName :: "string option"
  properties :: "(string \<times> prop_spec) list"

definition hasIdSequence :: "mapping \<Rightarrow> bool" where
  "hasIdSequence m = (idSequenceName m \<noteq> None)"

text \<open>\<open>propMapping.column || propName\<close>: an absent or empty column name gives the property name.\<close>

definition column_or_name :: "prop_spec \<Rightarrow> string \<Rightarrow> string" where
  "column_or_name p name = (case p_column p of None \<Rightarrow> name | Some c \<Rightarrow> if c = [] then name else c)"

text \<open>
  Modelled from the spec: a \<open>Key\<close> is \<open>{type, id}\<close>, transient while the id is absent
  (\<open>ringo/storage/sql/key\<close> is not among the sources).
\<close>

record key =
  ktype :: string
  kid :: jsval

definition isPersistent :: "key \<Rightarrow> bool" where
  "isPersistent k = (\<not> is_nullish (kid k))"

text \<open>
  Modelled from the spec: a \<open>Transaction\<close> owns one connection and three accumulators of
  keys (\<open>ringo/storage/sql/transaction\<close> is not among the sources). The accumulators hold
  references to the Key objects pushed onto them.
\<close>

record txn =
  tconn :: nat
  inserted :: "nat list"
  updated :: "nat list"
  deleted :: "nat list"

text \<open>An entity: the property bag of one row, with the reference to its Key in \<open>_key\<close>.\<close>

record entity =
  ekey :: nat
  eprops :: "string \<Rightarrow> jsval"

text \<open>The registered constructor of an entity type; the store reads its \<open>mapping\<close>.\<close>

record ctor =
  ctype :: string
  cmapping :: mapping

record resultset =
  rs_columns :: "(string \<times> int) list"     \<comment> \<open>label and JDBC type number of each column\<close>
  rs_rows :: "(string \<Rightarrow> jsval) list"      \<comment> \<open>the cell of each row under a column label\<close>

record column_meta =
  cm_name :: string
  cm_type :: int
  cm_size :: int
  cm_nullable :: int
  cm_default :: "string option"
  cm_digits :: int
  cm_radix :: int

record pk_meta =
  pk_column :: string
  pk_seq :: int
  pk_name :: "string option"

record table_meta =
  tm_name :: string
  tm_schema :: "string option"
  tm_catalog :: "string option"
  tm_type :: string

text \<open>
  The database behind the JDBC driver. It is not part of the program: what it answers is
  a parameter. \<open>fails n\<close> says whether the \<open>n\<close>-th call into the driver throws, so that a
  statement about every world is a statement about every error path.
\<close>

record 'db driver =
  fails :: "nat \<Rightarrow> bool"
  run_query :: "'db \<Rightarrow> string \<Rightarrow> resultset \<times> 'db"
  run_update :: "'db \<Rightarrow> string \<Rightarrow> (nat \<times> jsval) list \<Rightarrow> int \<times> 'db"
  db_product :: "'db \<Rightarrow> string \<times> int"
  db_tables :: "'db \<Rightarrow> table_meta list"
  db_columns :: "'db \<Rightarrow> string \<Rightarrow> string \<Rightarrow> string \<Rightarrow> column_meta list"
  db_pkeys :: "'db \<Rightarrow> string option \<Rightarrow> string \<Rightarrow> pk_meta list"

datatype event =
    Acquire nat     \<comment> \<open>the pool handed out this connection\<close>
  | Use nat         \<comment> \<open>a driver call on this connection, or on a statement or cursor of it\<close>
  | Close nat       \<comment> \<open>\<open>close()\<close> was called on this connection\<close>

text \<open>
  The state the program runs in: the database, the pool (\<open>next_conn\<close>), the log of what
  happened to connections, the closure variables of the Store (\<open>dialect_cache\<close>,
  \<open>registry\<close>), and the heap of the objects the store shares with its callers (keys and
  transactions).
\<close>

record 'db world =
  drv :: "'db driver"
  db :: 'db
  tick :: nat
  next_conn :: nat
  trace :: "event list"
  modules :: "string \<Rightarrow> dialect"
  dialect_cache :: "dialect option"
  registry :: "string \<Rightarrow> ctor option"
  keys :: "nat \<Rightarrow> key"
  next_key :: nat
  txns :: "nat \<Rightarrow> txn"

section \<open>Computations that may throw\<close>

type_synonym ('db, 'a) io = "'db world \<Rightarrow> (error + 'a) \<times> 'db world"

definition ret :: "'a \<Rightarrow> ('db, 'a) io" where
  "ret x w = (Inr x, w)"

definition throw :: "error \<Rightarrow> ('db, 'a) io" where
  "throw e w = (Inl e, w)"

definition bnd :: "('db, 'a) io \<Rightarrow> ('a \<Rightarrow> ('db, 'b) io) \<Rightarrow> ('db, 'b) io" where
  "bnd m f w = (case m w of (Inl e, w') \<Rightarrow> (Inl e, w') | (Inr x, w') \<Rightarrow> f x w')"

text \<open>\<open>try { body } finally { fin }\<close>: \<open>fin\<close> runs on both exits; if it throws, its error wins.\<close>

definition try_finally :: "('db, 'a) io \<Rightarrow> ('db, unit) io \<Rightarrow> ('db, 'a) io" where
  "try_finally body fin w =
     (case body w of (r, w') \<Rightarrow>
        (case fin w' of (Inl e, w'') \<Rightarrow> (Inl e, w'') | (Inr u, w'') \<Rightarrow> (r, w'')))"

text \<open>Running a step for each element of a list, as \<open>forEach\<close> and the \<open>for\<close> loops do.\<close>

fun for_each :: "('a \<Rightarrow> ('db, unit) io) \<Rightarrow> 'a list \<Rightarrow> ('db, unit) io" where
  "for_each f [] = ret ()"
| "for_each f (x # xs) = bnd (f x) (\<lambda>u. for_each f xs)"

fun map_io :: "('a \<Rightarrow> ('db, 'b) io) \<Rightarrow> 'a list \<Rightarrow> ('db, 'b list) io" where
  "map_io f [] = ret []"
| "map_io f (x # xs) = bnd (f x) (\<lambda>y. bnd (map_io f xs) (\<lambda>ys. ret (y # ys)))"

section \<open>The connection pool and the driver calls\<close>

text \<open>
  Modelled from the spec: \<open>acquire() -> connection\<close> of the pool (section 6;
  \<open>ringo/storage/sql/connectionpool\<close> is not among the sources). Every acquisition
  hands out a fresh handle; the acquisition itself may throw.
\<close>

definition getConnection :: "('db, nat) io" where
  "getConnection w =
     (if fails (drv w) (tick w) then (Inl SqlException, w\<lparr>tick := Suc (tick w)\<rparr>)
      else (Inr (next_conn w),
            w\<lparr>tick := Suc (tick w), next_conn := Suc (next_conn w),
              trace := trace w @ [Acquire (next_conn w)]\<rparr>))"

text \<open>
  One call into the driver on connection \<open>c\<close> (or on a statement, a cursor or the metadata
  of \<open>c\<close>): it is logged, and it throws when the driver says so.
\<close>

definition jdbc :: "nat \<Rightarrow> ('db, unit) io" where
  "jdbc c w =
     (if fails (drv w) (tick w)
      then (Inl SqlException, w\<lparr>tick := Suc (tick w), trace := trace w @ [Use c]\<rparr>)
      else (Inr (), w\<lparr>tick := Suc (tick w), trace := trace w @ [Use c]\<rparr>))"

definition executeQuery :: "nat \<Rightarrow> string \<Rightarrow> ('db, resultset) io" where
  "executeQuery c sql =
     bnd (jdbc c) (\<lambda>u w. case run_query (drv w) (db w) sql of (rs, d) \<Rightarrow> (Inr rs, w\<lparr>db := d\<rparr>))"

definition executeUpdate :: "nat \<Rightarrow> string \<Rightarrow> (nat \<times> jsval) list \<Rightarrow> ('db, int) io" where
  "executeUpdate c sql params =
     bnd (jdbc c) (\<lambda>u w. case run_update (drv w) (db w) sql params of (n, d) \<Rightarrow> (Inr n, w\<lparr>db := d\<rparr>))"

subsection \<open>util.js: close\<close>

text \<open>
  \<open>close(obj)\<close> calls \<open>obj.close()\<close> unless \<open>obj\<close> is \<open>null\<close>. Closing is taken not to throw.
  Only the closing of a connection is logged; statements and cursors are closed by
  \<open>close_handle\<close>, which leaves no trace.
\<close>

definition close :: "nat option \<Rightarrow> ('db, unit) io" where
  "close obj w = (case obj of None \<Rightarrow> (Inr (), w)
                  | Some c \<Rightarrow> (Inr (), w\<lparr>trace := trace w @ [Close c]\<rparr>))"

definition close_handle :: "('db, unit) io" where
  "close_handle = ret ()"

subsection \<open>util.js: createTable, createSequence, drop\<close>

record column =
  c_name :: string
  c_type :: "string option"
  c_nullable :: "bool option"
  c_length :: "int option"
  c_precision :: "int option"
  c_scale :: "int option"
  c_default :: jsval

text \<open>
  The body of \<open>columns.forEach\<close> in \<open>createTable\<close>: the clause of one column, or the error
  thrown for a type the dialect does not know. \<open>is_last\<close> is \<open>idx = columns.length - 1\<close>.
\<close>

definition column_clause :: "dialect \<Rightarrow> column \<Rightarrow> bool \<Rightarrow> error + string" where
  "column_clause d col is_last =
     (case column_type_of d (c_type col) of
        None \<Rightarrow> Inl (JsError (''Unable to determine data type, code: ''
                              @ (case c_type col of None \<Rightarrow> ''undefined'' | Some t \<Rightarrow> t)))
      | Some dataType \<Rightarrow>
          Inr (quote d (c_name col) @ '' ''
               @ getSql dataType (c_length col) (c_precision col) (c_scale col)
               @ (if \<not> is_nullish (c_default col)
                  then '' DEFAULT '' @ (if needsQuotes dataType then ct_quote dataType (c_default col)
                                        else js_text (c_default col))
                  else [])
               @ (if c_nullable col = Some False then '' NOT NULL'' else [])
               @ (if is_last then [] else '', '')))"

fun column_clauses :: "dialect \<Rightarrow> column list \<Rightarrow> error + string" where
  "column_clauses d [] = Inr []"
| "column_clauses d (col # cols) =
     (case column_clause d col (cols = []) of
        Inl e \<Rightarrow> Inl e
      | Inr s \<Rightarrow> (case column_clauses d cols of Inl e \<Rightarrow> Inl e | Inr rest \<Rightarrow> Inr (s @ rest)))"

text \<open>\<open>primaryKey\<close> is \<open>null\<close>, one name, or an array of names.\<close>

datatype pk_arg = PkName string | PkList "string list"

definition primary_key_clause :: "dialect \<Rightarrow> pk_arg option \<Rightarrow> string" where
  "primary_key_clause d pk =
     (case pk of
        None \<Rightarrow> []
      | Some a \<Rightarrow> '', PRIMARY KEY (''
                  @ join_with '', '' (map (quote d) (case a of PkName n \<Rightarrow> [n] | PkList ns \<Rightarrow> ns))
                  @ '')'')"

definition createTable_sql :: "dialect \<Rightarrow> string \<Rightarrow> column list \<Rightarrow> pk_arg option \<Rightarrow> error + string" where
  "createTable_sql d table cols pk =
     (case column_clauses d cols of
        Inl e \<Rightarrow> Inl e
      | Inr clauses \<Rightarrow>
          Inr (''CREATE TABLE '' @ quote d table @ '' ('' @ clauses
               @ primary_key_clause d pk @ '')''
               @ (case getEngineType d of None \<Rightarrow> [] | Some e \<Rightarrow> '' ENGINE='' @ e)))"

text \<open>
  The statement text is built before the \<open>try\<close>; the \<open>finally\<close> that closes the statement
  and the connection covers \<open>setReadOnly\<close>, \<open>createStatement\<close> and \<open>executeUpdate\<close> only.
\<close>

definition createTable :: "nat \<Rightarrow> dialect \<Rightarrow> string \<Rightarrow> column list \<Rightarrow> pk_arg option \<Rightarrow> ('db, int) io" where
  "createTable conn d table cols pk =
     (case createTable_sql d table cols pk of
        Inl e \<Rightarrow> throw e
      | Inr sql \<Rightarrow>
          try_finally
            (bnd (jdbc conn) (\<lambda>u.            \<comment> \<open>\<open>conn.setReadOnly(false)\<close>\<close>
             bnd (jdbc conn) (\<lambda>u.            \<comment> \<open>\<open>conn.createStatement()\<close>\<close>
             executeUpdate conn sql [])))
            (bnd close_handle (\<lambda>u. close (Some conn))))"

definition createSequence :: "nat \<Rightarrow> dialect \<Rightarrow> string \<Rightarrow> ('db, int) io" where
  "createSequence conn d sequenceName =
     try_finally
       (bnd (jdbc conn) (\<lambda>u.
        bnd (jdbc conn) (\<lambda>u.
        executeUpdate conn (''CREATE SEQUENCE '' @ quote d sequenceName
                            @ '' START WITH 1 INCREMENT BY 1'') [])))
       (bnd close_handle (\<lambda>u. close (Some conn)))"

definition drop_object :: "nat \<Rightarrow> dialect \<Rightarrow> string \<Rightarrow> string \<Rightarrow> string option \<Rightarrow> ('db, unit) io" where
  "drop_object conn d typeName objectName schemaName =
     try_finally
       (bnd (jdbc conn) (\<lambda>u.
        bnd (jdbc conn) (\<lambda>u.
        bnd (executeUpdate conn
               (''DROP '' @ typeName @ '' ''
                @ (case schemaName of None \<Rightarrow> [] | Some s \<Rightarrow> quote d s @ ''.'')
                @ quote d objectName) [])
            (\<lambda>n. ret ()))))
       (bnd close_handle (\<lambda>u. close (Some conn)))"

definition dropTable :: "nat \<Rightarrow> dialect \<Rightarrow> string \<Rightarrow> string option \<Rightarrow> ('db, unit) io" where
  "dropTable conn d table schemaName = drop_object conn d ''TABLE'' table schemaName"

definition dropSequence :: "nat \<Rightarrow> dialect \<Rightarrow> string \<Rightarrow> string option \<Rightarrow> ('db, unit) io" where
  "dropSequence conn d sequenceName schemaName = drop_object conn d ''SEQUENCE'' sequenceName schemaName"

subsection \<open>util.js: getColumns, getPrimaryKeys, getTables, tableExists\<close>

text \<open>
  \<open>while (cursor.next()) { body }\<close> over the rows the driver holds for the cursor: one call
  of \<open>next()\<close> before each row and one more that reports the end.
\<close>

fun cursor_loop :: "nat \<Rightarrow> ('r \<Rightarrow> ('db, 'a) io) \<Rightarrow> 'r list \<Rightarrow> ('db, 'a list) io" where
  "cursor_loop c body [] = bnd (jdbc c) (\<lambda>u. ret [])"
| "cursor_loop c body (r # rs) =
     bnd (jdbc c) (\<lambda>u. bnd (body r) (\<lambda>x. bnd (cursor_loop c body rs) (\<lambda>xs. ret (x # xs))))"

text \<open>\<open>n\<close> driver calls in a row, such as the \<open>getString\<close> and \<open>getInt\<close> calls that read one row.\<close>

fun jdbc_n :: "nat \<Rightarrow> nat \<Rightarrow> ('db, unit) io" where
  "jdbc_n c 0 = ret ()"
| "jdbc_n c (Suc n) = bnd (jdbc c) (\<lambda>u. jdbc_n c n)"

record column_info =
  ci_name :: string
  ci_type :: int
  ci_length :: int
  ci_nullable :: bool
  ci_default :: "string option"
  ci_precision :: int
  ci_scale :: int

record pk_info =
  pi_name :: string
  pi_sequenceNumber :: int
  pi_primaryKeyName :: "string option"

record table_info =
  ti_name :: string
  ti_schema :: "string option"
  ti_catalog :: "string option"
  ti_type :: string
  ti_columns :: "column_info list"
  ti_primaryKeys :: "pk_info list"

text \<open>\<open>pattern || "%"\<close>: an absent or empty pattern matches everything.\<close>

definition pattern_or_all :: "string option \<Rightarrow> string" where
  "pattern_or_all p = (case p of None \<Rightarrow> ''%'' | Some s \<Rightarrow> if s = [] then ''%'' else s)"

text \<open>\<open>typeNoNulls\<close> of \<open>java.sql.DatabaseMetaData\<close> is 0.\<close>

definition getColumns :: "nat \<Rightarrow> string option \<Rightarrow> string option \<Rightarrow> string option \<Rightarrow> ('db, column_info list) io" where
  "getColumns c tablePattern schemaPattern columnPattern =
     try_finally
       (bnd (jdbc c) (\<lambda>u w.
          cursor_loop c
            (\<lambda>m. bnd (jdbc_n c 7) (\<lambda>u.
               ret \<lparr>ci_name = cm_name m, ci_type = cm_type m, ci_length = cm_size m,
                    ci_nullable = (cm_nullable m \<noteq> 0), ci_default = cm_default m,
                    ci_precision = cm_digits m, ci_scale = cm_radix m\<rparr>))
            (db_columns (drv w) (db w) (pattern_or_all schemaPattern) (pattern_or_all tablePattern)
               (pattern_or_all columnPattern)) w))
       close_handle"

definition getPrimaryKeys :: "nat \<Rightarrow> string \<Rightarrow> string option \<Rightarrow> ('db, pk_info list) io" where
  "getPrimaryKeys c table schemaName =
     try_finally
       (bnd (jdbc c) (\<lambda>u w.
          cursor_loop c
            (\<lambda>m. bnd (jdbc_n c 3) (\<lambda>u.
               ret \<lparr>pi_name = pk_column m, pi_sequenceNumber = pk_seq m,
                    pi_primaryKeyName = pk_name m\<rparr>))
            (db_pkeys (drv w) (db w) (if schemaName = Some [] then None else schemaName) table) w))
       close_handle"

text \<open>
  \<open>getTables\<close> closes the connection it was given in its \<open>finally\<close> (its comment says
  it does not).
\<close>

definition getTables :: "nat \<Rightarrow> ('db, table_info list) io" where
  "getTables conn =
     try_finally
       (bnd (jdbc conn) (\<lambda>u.
        bnd (jdbc conn) (\<lambda>u w.
          cursor_loop conn
            (\<lambda>t. bnd (jdbc_n conn 4) (\<lambda>u.
                  bnd (getColumns conn (Some (tm_name t)) (tm_schema t) None) (\<lambda>cols.
                  bnd (getPrimaryKeys conn (tm_name t) (tm_schema t)) (\<lambda>pks.
                  ret \<lparr>ti_name = tm_name t, ti_schema = tm_schema t, ti_catalog = tm_catalog t,
                       ti_type = tm_type t, ti_columns = cols, ti_primaryKeys = pks\<rparr>))))
            (db_tables (drv w) (db w)) w)))
       (bnd close_handle (\<lambda>u. close (Some conn)))"

definition tableExists :: "nat \<Rightarrow> string \<Rightarrow> ('db, bool) io" where
  "tableExists conn table = bnd (getTables conn) (\<lambda>tables. ret (table \<in> set (map ti_name tables)))"

section \<open>store.js\<close>

subsection \<open>The dialect of the store\<close>

definition determineDialect :: "('db, dialect) io" where
  "determineDialect =
     bnd getConnection (\<lambda>conn.
       try_finally
         (bnd (jdbc conn) (\<lambda>u.       \<comment> \<open>\<open>conn.getMetaData()\<close>\<close>
          bnd (jdbc conn) (\<lambda>u.       \<comment> \<open>\<open>getDatabaseProductName()\<close>\<close>
          bnd (jdbc conn) (\<lambda>u w.     \<comment> \<open>\<open>getDatabaseMajorVersion()\<close>\<close>
            (case db_product (drv w) (db w) of (productName, majorVersion) \<Rightarrow>
               if productName = ''H2'' then ret (modules w ''./databases/h2'')
               else if productName = ''MySQL''
               then (if majorVersion = 5 then ret (modules w ''./databases/mysql5'')
                     else throw (JsError (''Unsupported MySQL version '' @ dec_int majorVersion)))
               else throw (JsError (''Unsupported database '' @ productName))) w))))
         (close (Some conn)))"

text \<open>The getter of \<open>this.dialect\<close>: determined on first use, cached from then on.\<close>

definition get_dialect :: "('db, dialect) io" where
  "get_dialect w =
     (case dialect_cache w of
        Some d \<Rightarrow> (Inr d, w)
      | None \<Rightarrow> bnd determineDialect (\<lambda>d w'. (Inr d, w'\<lparr>dialect_cache := Some d\<rparr>)) w)"

subsection \<open>The registry\<close>

definition getEntityConstructor :: "string \<Rightarrow> ('db, ctor) io" where
  "getEntityConstructor type w =
     (case registry w type of
        None \<Rightarrow> (Inl (JsError (''Entity '' @ [CHR 0x27] @ type @ [CHR 0x27] @ '' is not defined'')), w)
      | Some c \<Rightarrow> (Inr c, w))"

definition getEntityMapping :: "string \<Rightarrow> ('db, mapping) io" where
  "getEntityMapping type = bnd (getEntityConstructor type) (\<lambda>c. ret (cmapping c))"

text \<open>
  \<open>Store.prototype.createTable\<close>: the loop over the mapped properties, which collects the
  column definitions and the columns marked unique, and throws at a property without a type.
\<close>

fun collect_columns ::
  "(string \<times> prop_spec) list \<Rightarrow> column list \<Rightarrow> string list \<Rightarrow> error + (column list \<times> string list)" where
  "collect_columns [] columns primaryKeys = Inr (columns, primaryKeys)"
| "collect_columns ((propName, property) # rest) columns primaryKeys =
     (if p_type property = None
      then Inl (JsError (''Store.createOrUpdateTable: missing data type definition for property ''
                         @ propName))
      else collect_columns rest
             (columns @ [\<lparr>c_name = column_or_name property propName, c_type = p_type property,
                          c_nullable = p_nullable property, c_length = p_length property,
                          c_precision = p_precision property, c_scale = p_scale property,
                          c_default = p_default property\<rparr>])
             (if p_unique property = Some True
              then primaryKeys @ [column_or_name property propName] else primaryKeys))"

definition store_createTable :: "nat \<Rightarrow> dialect \<Rightarrow> mapping \<Rightarrow> ('db, int) io" where
  "store_createTable conn d m =
     (case collect_columns (properties m)
             [\<lparr>c_name = idColumnName m, c_type = Some ''integer'', c_nullable = Some False,
               c_length = None, c_precision = None, c_scale = None, c_default = Undefined\<rparr>]
             [idColumnName m] of
        Inl e \<Rightarrow> throw e
      | Inr (columns, primaryKeys) \<Rightarrow>
          createTable conn d (tableName m) columns (Some (PkList primaryKeys)))"

text \<open>
  \<open>defineEntity\<close>: a registered type is returned as it is. Otherwise the constructor is
  registered first, and then the table is looked for on a connection of the pool, which
  \<open>tableExists\<close> closes; \<open>createTable\<close> and \<open>createSequence\<close> are handed the same connection.
\<close>

definition defineEntity :: "string \<Rightarrow> mapping \<Rightarrow> ('db, ctor) io" where
  "defineEntity type m w =
     (case registry w type of
        Some c \<Rightarrow> (Inr c, w)
      | None \<Rightarrow>
          (let c = \<lparr>ctype = type, cmapping = m\<rparr> in
           bnd getConnection (\<lambda>conn.
           bnd (tableExists conn (tableName m)) (\<lambda>found.
             if \<not> found then
               bnd get_dialect (\<lambda>d.
               bnd (store_createTable conn d m) (\<lambda>n.
                 (case idSequenceName m of
                    None \<Rightarrow> ret c
                  | Some sequenceName \<Rightarrow>
                      bnd get_dialect (\<lambda>d1.
                        if hasSequenceSupport d1
                        then bnd get_dialect (\<lambda>d2.
                             bnd (createSequence conn d2 sequenceName) (\<lambda>n. ret c))
                        else ret c))))
             else ret c))
             (w\<lparr>registry := (registry w)(type \<mapsto> c)\<rparr>)))"

subsection \<open>query and generateId\<close>

text \<open>The inner \<open>for\<close> loop of \<open>query\<close>: the columns of one row, converted by the dialect.\<close>

fun read_columns ::
  "nat \<Rightarrow> (string \<Rightarrow> jsval) \<Rightarrow> (string \<times> int) list \<Rightarrow> (string \<Rightarrow> jsval) \<Rightarrow> ('db, string \<Rightarrow> jsval) io" where
  "read_columns conn cells [] row = ret row"
| "read_columns conn cells ((columnName, columnType) # cols) row =
     bnd (jdbc conn) (\<lambda>u.           \<comment> \<open>\<open>getColumnLabel(i)\<close>\<close>
     bnd (jdbc conn) (\<lambda>u.           \<comment> \<open>\<open>getColumnType(i)\<close>\<close>
     bnd get_dialect (\<lambda>d.
       (case getColumnTypeByJdbcNumber d columnType of
          None \<Rightarrow> throw (JsError (''unknown data type '' @ dec_int columnType
                                  @ '' of column '' @ columnName))
        | Some dataType \<Rightarrow>
            bnd (jdbc conn) (\<lambda>u.    \<comment> \<open>\<open>dataType.get(resultSet, columnName)\<close>\<close>
            read_columns conn cells cols (row(columnName := ct_get dataType (cells columnName))))))))"

definition query_body :: "nat \<Rightarrow> string \<Rightarrow> ('db, (string \<Rightarrow> jsval) list) io" where
  "query_body conn sql =
     bnd (jdbc conn) (\<lambda>u.               \<comment> \<open>\<open>conn.setReadOnly(true)\<close>\<close>
     bnd (jdbc conn) (\<lambda>u.               \<comment> \<open>\<open>conn.createStatement()\<close>\<close>
     bnd (executeQuery conn sql) (\<lambda>rs.
     bnd (jdbc conn) (\<lambda>u.               \<comment> \<open>\<open>resultSet.getMetaData()\<close>\<close>
     bnd (jdbc conn) (\<lambda>u.               \<comment> \<open>\<open>metaData.getColumnCount()\<close>\<close>
     cursor_loop conn (\<lambda>cells. read_columns conn cells (rs_columns rs) (\<lambda>n. Undefined))
       (rs_rows rs))))))"

text \<open>
  In \<open>query\<close> the connection is acquired inside the \<open>try\<close>: when the pool throws, \<open>conn\<close> is
  still \<open>null\<close> and the \<open>finally\<close> closes nothing.
\<close>

definition query :: "string \<Rightarrow> ('db, (string \<Rightarrow> jsval) list) io" where
  "query sql w =
     (case getConnection w of
        (Inl e, w') \<Rightarrow>
          try_finally (throw e)
            (bnd close_handle (\<lambda>u. bnd close_handle (\<lambda>u. close None))) w'
      | (Inr conn, w') \<Rightarrow>
          try_finally (query_body conn sql)
            (bnd close_handle (\<lambda>u. bnd close_handle (\<lambda>u. close (Some conn)))) w')"

text \<open>
  The statement \<open>generateId\<close> runs and the offset it adds: the next value of the sequence
  when the mapping names one and the dialect has sequences, the largest id plus one otherwise.
\<close>

definition max_id_sql :: "mapping \<Rightarrow> ('db, string \<times> int) io" where
  "max_id_sql m =
     bnd get_dialect (\<lambda>d. ret (''SELECT MAX('' @ quote d (idColumnName m) @ '') FROM '' @ tableName m, 1))"

definition generateId_sql :: "mapping \<Rightarrow> ('db, string \<times> int) io" where
  "generateId_sql m =
     (case idSequenceName m of
        None \<Rightarrow> max_id_sql m
      | Some sequenceName \<Rightarrow>
          bnd get_dialect (\<lambda>d.
            if hasSequenceSupport d
            then bnd get_dialect (\<lambda>d1. ret (getSqlNextSequenceValue d1 sequenceName, 0))
            else max_id_sql m))"

text \<open>
  Reading the first column of the first row. A result without columns, or without a
  current row, makes the driver throw.
\<close>

definition generateId_body :: "nat \<Rightarrow> string \<Rightarrow> int \<Rightarrow> ('db, jsval) io" where
  "generateId_body conn sql offset =
     bnd (jdbc conn) (\<lambda>u.               \<comment> \<open>\<open>conn.createStatement()\<close>\<close>
     bnd (executeQuery conn sql) (\<lambda>rs.
     bnd (jdbc conn) (\<lambda>u.               \<comment> \<open>\<open>resultSet.getMetaData()\<close>\<close>
     bnd (jdbc conn) (\<lambda>u.               \<comment> \<open>\<open>resultSet.next()\<close>\<close>
     bnd (jdbc conn) (\<lambda>u.               \<comment> \<open>\<open>metaData.getColumnLabel(1)\<close>\<close>
     (case rs_columns rs of
        [] \<Rightarrow> throw SqlException
      | (columnName, columnType) # cols \<Rightarrow>
          bnd (jdbc conn) (\<lambda>u.          \<comment> \<open>\<open>metaData.getColumnType(1)\<close>\<close>
          bnd get_dialect (\<lambda>d.
            (case getColumnTypeByJdbcNumber d columnType of
               None \<Rightarrow> throw (JsError (''unknown data type '' @ dec_int columnType
                                       @ '' of column '' @ columnName))
             | Some dataType \<Rightarrow>
                 bnd (jdbc conn) (\<lambda>u.   \<comment> \<open>\<open>dataType.get(resultSet, columnName)\<close>\<close>
                   (case rs_rows rs of
                      [] \<Rightarrow> throw SqlException
                    | cells # others \<Rightarrow> ret (js_add (ct_get dataType (cells columnName)) offset))))))))))))"

definition generateId :: "string \<Rightarrow> ('db, jsval) io" where
  "generateId type =
     bnd (getEntityMapping type) (\<lambda>m.
     bnd (generateId_sql m) (\<lambda>(sql, offset).
     bnd getConnection (\<lambda>conn.
       try_finally (generateId_body conn sql offset)
         (bnd close_handle (\<lambda>u. bnd close_handle (\<lambda>u. close (Some conn)))))))"

subsection \<open>insert, update, remove\<close>

text \<open>
  The block that \<open>insert\<close>, \<open>update\<close> and \<open>remove\<close> each repeat around their statement: with a
  transaction its connection is taken (isolation level set, autocommit off) and the
  \<open>finally\<close> leaves it open; without one a connection of the pool is acquired inside the
  \<open>try\<close> (autocommit on) and the \<open>finally\<close> closes it.

  Modelled from the spec: \<open>transaction.getConnection()\<close> returns the connection the
  transaction owns (section 3).
\<close>

definition with_connection :: "nat option \<Rightarrow> (nat \<Rightarrow> ('db, 'a) io) \<Rightarrow> ('db, 'a) io" where
  "with_connection transaction body w =
     (case transaction of
        Some t \<Rightarrow>
          try_finally
            (bnd (jdbc (tconn (txns w t))) (\<lambda>u.      \<comment> \<open>\<open>setTransactionIsolation(SERIALIZABLE)\<close>\<close>
             bnd (jdbc (tconn (txns w t))) (\<lambda>u.      \<comment> \<open>\<open>setAutoCommit(false)\<close>\<close>
             body (tconn (txns w t)))))
            close_handle w
      | None \<Rightarrow>
          (case getConnection w of
             (Inl e, w') \<Rightarrow> try_finally (throw e) (bnd close_handle (\<lambda>u. close None)) w'
           | (Inr conn, w') \<Rightarrow>
               try_finally
                 (bnd (jdbc conn) (\<lambda>u.                \<comment> \<open>\<open>setAutoCommit(true)\<close>\<close>
                  body conn))
                 (bnd close_handle (\<lambda>u. close (Some conn))) w'))"

definition read_key :: "nat \<Rightarrow> ('db, key) io" where
  "read_key k w = (Inr (keys w k), w)"

text \<open>\<open>transaction.inserted.push(key)\<close> and its two siblings; nothing happens without a transaction.\<close>

definition push_inserted :: "nat option \<Rightarrow> nat \<Rightarrow> ('db, unit) io" where
  "push_inserted transaction k w =
     (case transaction of
        None \<Rightarrow> (Inr (), w)
      | Some t \<Rightarrow> (Inr (), w\<lparr>txns := (txns w)(t := (txns w t)\<lparr>inserted := inserted (txns w t) @ [k]\<rparr>)\<rparr>))"

definition push_updated :: "nat option \<Rightarrow> nat \<Rightarrow> ('db, unit) io" where
  "push_updated transaction k w =
     (case transaction of
        None \<Rightarrow> (Inr (), w)
      | Some t \<Rightarrow> (Inr (), w\<lparr>txns := (txns w)(t := (txns w t)\<lparr>updated := updated (txns w t) @ [k]\<rparr>)\<rparr>))"

definition push_deleted :: "nat option \<Rightarrow> nat \<Rightarrow> ('db, unit) io" where
  "push_deleted transaction k w =
     (case transaction of
        None \<Rightarrow> (Inr (), w)
      | Some t \<Rightarrow> (Inr (), w\<lparr>txns := (txns w)(t := (txns w t)\<lparr>deleted := deleted (txns w t) @ [k]\<rparr>)\<rparr>))"

text \<open>\<open>entity._key.id = nextId\<close>\<close>

definition set_key_id :: "nat \<Rightarrow> jsval \<Rightarrow> ('db, unit) io" where
  "set_key_id k v w = (Inr (), w\<lparr>keys := (keys w)(k := (keys w k)\<lparr>kid := v\<rparr>)\<rparr>)"

definition remove :: "nat \<Rightarrow> nat option \<Rightarrow> ('db, int) io" where
  "remove k transaction =
     bnd (read_key k) (\<lambda>key.
     bnd (getEntityMapping (ktype key)) (\<lambda>m.
     bnd get_dialect (\<lambda>d.
     with_connection transaction (\<lambda>conn.
       bnd (jdbc conn) (\<lambda>u.                 \<comment> \<open>\<open>conn.setReadOnly(false)\<close>\<close>
       bnd (jdbc conn) (\<lambda>u.                 \<comment> \<open>\<open>conn.prepareStatement(sql)\<close>\<close>
       (case getColumnType d ''integer'' of
          None \<Rightarrow> throw TypeError
        | Some dataType \<Rightarrow>
            bnd (jdbc conn) (\<lambda>u.            \<comment> \<open>\<open>dataType.set(statement, key.id, 1)\<close>\<close>
            bnd (read_key k) (\<lambda>key1.
            bnd (executeUpdate conn
                   (''DELETE FROM '' @ quote d (tableName m) @ '' WHERE ''
                    @ quote d (idColumnName m) @ '' = ?'')
                   [(1, kid key1)]) (\<lambda>result.
            bnd (push_deleted transaction k) (\<lambda>u.
            ret result)))))))))))"

text \<open>
  The property loop of \<open>insert\<close>. A property is skipped when the entity holds nothing under
  \<open>propMapping.column || propName\<close> and the mapping gives a default.
\<close>

definition insert_skips :: "entity \<Rightarrow> string \<Rightarrow> prop_spec \<Rightarrow> bool" where
  "insert_skips e propName p =
     (is_nullish (eprops e (column_or_name p propName)) \<and> \<not> is_nullish (p_default p))"

definition insert_properties :: "entity \<Rightarrow> mapping \<Rightarrow> (string \<times> prop_spec) list" where
  "insert_properties e m = filter (\<lambda>(propName, p). \<not> insert_skips e propName p) (properties m)"

definition insert_sql :: "dialect \<Rightarrow> entity \<Rightarrow> mapping \<Rightarrow> string" where
  "insert_sql d e m =
     ''INSERT INTO '' @ quote d (tableName m) @ '' ('' @ quote d (idColumnName m)
     @ concat (map (\<lambda>(propName, p). '', '' @ quote d (column_or_name p propName)) (insert_properties e m))
     @ '') VALUES ('' @ ''?'' @ concat (map (\<lambda>x. '', ?'') (insert_properties e m)) @ '')''"

definition insert_columns :: "dialect \<Rightarrow> entity \<Rightarrow> mapping \<Rightarrow> (string \<times> column_type option) list" where
  "insert_columns d e m =
     (idColumnName m, getColumnType d ''integer'')
     # map (\<lambda>(propName, p). (propName, column_type_of d (p_type p))) (insert_properties e m)"

text \<open>
  \<open>columns.forEach\<close> in \<open>insert\<close>: the value bound at position \<open>idx + 1\<close>. A column without
  a type handler makes the access to \<open>column.dataType\<close> throw.
\<close>

fun bind_insert ::
  "nat \<Rightarrow> mapping \<Rightarrow> entity \<Rightarrow> jsval \<Rightarrow> (string \<times> column_type option) list \<Rightarrow> nat
     \<Rightarrow> ('db, (nat \<times> jsval) list) io" where
  "bind_insert conn m e nextId [] idx = ret []"
| "bind_insert conn m e nextId ((name, dataType) # columns) idx =
     (case dataType of
        None \<Rightarrow> throw TypeError
      | Some dt \<Rightarrow>
          bnd (jdbc conn) (\<lambda>u.
          bnd (bind_insert conn m e nextId columns (Suc idx)) (\<lambda>params.
          ret ((idx + 1,
                if name = idColumnName m then nextId
                else if is_nullish (eprops e name) then Null
                else eprops e name) # params))))"

text \<open>\<open>Store.prototype.insert\<close> (named \<open>insert_entity\<close> here, apart from the \<open>insert\<close> of sets).\<close>

definition insert_entity :: "entity \<Rightarrow> nat option \<Rightarrow> ('db, int) io" where
  "insert_entity e transaction =
     bnd (read_key (ekey e)) (\<lambda>key.
     bnd (getEntityMapping (ktype key)) (\<lambda>m.
     bnd get_dialect (\<lambda>d.
     bnd (read_key (ekey e)) (\<lambda>key1.
     bnd (generateId (ktype key1)) (\<lambda>nextId.
     with_connection transaction (\<lambda>conn.
       bnd (jdbc conn) (\<lambda>u.                 \<comment> \<open>\<open>conn.setReadOnly(false)\<close>\<close>
       bnd (jdbc conn) (\<lambda>u.                 \<comment> \<open>\<open>conn.prepareStatement(sql)\<close>\<close>
       bnd (bind_insert conn m e nextId (insert_columns d e m) 0) (\<lambda>params.
       bnd (executeUpdate conn (insert_sql d e m) params) (\<lambda>result.
       bnd (push_inserted transaction (ekey e)) (\<lambda>u.
       bnd (set_key_id (ekey e) nextId) (\<lambda>u.
       ret result))))))))))))"

fun bind_update ::
  "nat \<Rightarrow> entity \<Rightarrow> (string \<times> column_type option) list \<Rightarrow> nat \<Rightarrow> ('db, (nat \<times> jsval) list) io" where
  "bind_update conn e [] idx = ret []"
| "bind_update conn e ((name, dataType) # columns) idx =
     (case dataType of
        None \<Rightarrow> throw TypeError
      | Some dt \<Rightarrow>
          bnd (jdbc conn) (\<lambda>u.
          bnd (bind_update conn e columns (Suc idx)) (\<lambda>params.
          ret ((idx + 1, if is_nullish (eprops e name) then Null else eprops e name) # params))))"

definition update_sql :: "dialect \<Rightarrow> mapping \<Rightarrow> jsval \<Rightarrow> string" where
  "update_sql d m idv =
     ''UPDATE '' @ quote d (tableName m) @ '' SET ''
     @ join_with '', '' (map (\<lambda>(propName, p). quote d (column_or_name p propName) @ '' = ?'') (properties m))
     @ '' WHERE '' @ quote d (idColumnName m) @ '' = '' @ js_text idv"

definition update :: "entity \<Rightarrow> nat option \<Rightarrow> ('db, int) io" where
  "update e transaction =
     bnd (read_key (ekey e)) (\<lambda>key.
     bnd (getEntityMapping (ktype key)) (\<lambda>m.
     bnd get_dialect (\<lambda>d.
     bnd (read_key (ekey e)) (\<lambda>key1.
     with_connection transaction (\<lambda>conn.
       bnd (jdbc conn) (\<lambda>u.                 \<comment> \<open>\<open>conn.setReadOnly(false)\<close>\<close>
       bnd (jdbc conn) (\<lambda>u.                 \<comment> \<open>\<open>conn.prepareStatement(sql)\<close>\<close>
       bnd (bind_update conn e
              (map (\<lambda>(propName, p). (propName, column_type_of d (p_type p))) (properties m)) 0)
           (\<lambda>params.
       bnd (executeUpdate conn (update_sql d m (kid key1)) params) (\<lambda>result.
       bnd (push_updated transaction (ekey e)) (\<lambda>u.
       ret result))))))))))"

subsection \<open>save\<close>

text \<open>
  A \<open>Storable\<close> is a host object: its \<open>save()\<close> and its \<open>_key\<close> are parameters here, \<open>ssave r\<close>
  for what saving the storable \<open>r\<close> does and \<open>skey r\<close> for the reference to its Key.
  \<open>updateEntity\<close> writes into the entity it is given, so the entity is returned with the
  result, also when a nested save throws half way.
\<close>

definition save_element :: "(nat \<Rightarrow> ('db, unit) io) \<Rightarrow> (nat \<Rightarrow> nat) \<Rightarrow> jsval \<Rightarrow> ('db, jsval) io" where
  "save_element ssave skey obj =
     (case obj of
        StorableV r \<Rightarrow> bnd (ssave r) (\<lambda>u. ret (KeyV (skey r)))
      | _ \<Rightarrow> ret obj)"

definition resolve_value :: "(nat \<Rightarrow> ('db, unit) io) \<Rightarrow> (nat \<Rightarrow> nat) \<Rightarrow> jsval \<Rightarrow> ('db, jsval) io" where
  "resolve_value ssave skey v =
     (case v of
        StorableV r \<Rightarrow> bnd (ssave r) (\<lambda>u. ret (KeyV (skey r)))
      | Arr vs \<Rightarrow> bnd (map_io (save_element ssave skey) vs) (\<lambda>ws. ret (Arr ws))
      | _ \<Rightarrow> ret v)"

fun updateEntity ::
  "(nat \<Rightarrow> ('db, unit) io) \<Rightarrow> (nat \<Rightarrow> nat) \<Rightarrow> (string \<times> jsval) list \<Rightarrow> entity \<Rightarrow> 'db world
     \<Rightarrow> (error + bool) \<times> entity \<times> 'db world" where
  "updateEntity ssave skey [] e w = (Inr True, e, w)"
| "updateEntity ssave skey ((name, v) # props) e w =
     (case resolve_value ssave skey v w of
        (Inl err, w') \<Rightarrow> (Inl err, e, w')
      | (Inr v', w') \<Rightarrow> updateEntity ssave skey props (e\<lparr>eprops := (eprops e)(name := v')\<rparr>) w')"

text \<open>\<open>save\<close> returns what \<open>update\<close> or \<open>insert\<close> returns, and \<open>undefined\<close> (\<open>None\<close>) otherwise.\<close>

definition save ::
  "(nat \<Rightarrow> ('db, unit) io) \<Rightarrow> (nat \<Rightarrow> nat) \<Rightarrow> (string \<times> jsval) list \<Rightarrow> entity \<Rightarrow> nat option
     \<Rightarrow> 'db world \<Rightarrow> (error + int option) \<times> entity \<times> 'db world" where
  "save ssave skey props e transaction w =
     (case updateEntity ssave skey props e w of
        (Inl err, e', w') \<Rightarrow> (Inl err, e', w')
      | (Inr changed, e', w') \<Rightarrow>
          if changed then
            (if isPersistent (keys w' (ekey e'))
             then (case update e' transaction w' of
                     (Inl err, w'') \<Rightarrow> (Inl err, e', w'') | (Inr n, w'') \<Rightarrow> (Inr (Some n), e', w''))
             else (case insert_entity e' transaction w' of
                     (Inl err, w'') \<Rightarrow> (Inl err, e', w'') | (Inr n, w'') \<Rightarrow> (Inr (Some n), e', w'')))
          else (Inr None, e', w'))"

subsection \<open>loadEntity and isEntityExisting\<close>

text \<open>\<open>new Key(type, id)\<close>: a fresh Key object.\<close>

definition new_key :: "string \<Rightarrow> jsval \<Rightarrow> ('db, nat) io" where
  "new_key type idv w =
     (Inr (next_key w),
      w\<lparr>keys := (keys w)(next_key w := \<lparr>ktype = type, kid = idv\<rparr>), next_key := Suc (next_key w)\<rparr>)"

text \<open>\<open>id.toString()\<close> throws on \<open>null\<close> and \<open>undefined\<close>.\<close>

definition id_toString :: "jsval \<Rightarrow> ('db, string) io" where
  "id_toString idv = (if is_nullish idv then throw TypeError else ret (js_text idv))"

definition loadEntity_sql :: "dialect \<Rightarrow> mapping \<Rightarrow> string \<Rightarrow> string" where
  "loadEntity_sql d m idtext =
     ''SELECT * FROM '' @ quote d (tableName m) @ '' WHERE '' @ quote d (idColumnName m)
     @ '' = '' @ idtext"

definition loadEntity :: "string \<Rightarrow> jsval \<Rightarrow> ('db, entity option) io" where
  "loadEntity type idv =
     bnd (getEntityMapping type) (\<lambda>m.
     bnd get_dialect (\<lambda>d.
     bnd (id_toString idv) (\<lambda>idtext.
     bnd (query (loadEntity_sql d m idtext)) (\<lambda>entities.
       if length entities > 1 then throw (JsError ''Multiple rows returned by query'')
       else (case entities of
               [] \<Rightarrow> ret None
             | row # others \<Rightarrow>
                 bnd (new_key type idv) (\<lambda>k. ret (Some \<lparr>ekey = k, eprops = row\<rparr>)))))))"

definition isEntityExisting_sql :: "dialect \<Rightarrow> mapping \<Rightarrow> string \<Rightarrow> string" where
  "isEntityExisting_sql d m idtext =
     ''SELECT '' @ quote d (idColumnName m) @ '' FROM '' @ quote d (tableName m) @ '' WHERE ''
     @ quote d (idColumnName m) @ '' = '' @ idtext"

definition isEntityExisting :: "string \<Rightarrow> jsval \<Rightarrow> ('db, bool) io" where
  "isEntityExisting type idv =
     bnd (getEntityMapping type) (\<lambda>m.
     bnd get_dialect (\<lambda>d.
     bnd (id_toString idv) (\<lambda>idtext.
     bnd (query (isEntityExisting_sql d m idtext)) (\<lambda>result.
       if length result > 1 then throw (JsError ''Multiple rows returned by query'')
       else ret (length result = 1)))))"

section \<open>What a call does to connections\<close>

text \<open>The events a call appended to the log: those of \<open>w'\<close> beyond those of \<open>w\<close>.\<close>

definition new_events :: "'db world \<Rightarrow> 'db world \<Rightarrow> event list" where
  "new_events w w' = drop (length (trace w)) (trace w')"

text \<open>
  \<open>scoped_from None k evs\<close>: the events are at most \<open>k\<close> scoped uses of a connection, one
  after the other. A scoped use is the acquisition of a connection, then calls on that
  connection only, then its close. The first argument is the connection that is open.
\<close>

fun scoped_from :: "nat option \<Rightarrow> nat \<Rightarrow> event list \<Rightarrow> bool" where
  "scoped_from None k [] = True"
| "scoped_from (Some c) k [] = False"
| "scoped_from None k (Acquire c # evs) = (0 < k \<and> scoped_from (Some c) (k - 1) evs)"
| "scoped_from None k (Use c # evs) = False"
| "scoped_from None k (Close c # evs) = False"
| "scoped_from (Some c) k (Acquire c' # evs) = False"
| "scoped_from (Some c) k (Use c' # evs) = (c' = c \<and> scoped_from (Some c) k evs)"
| "scoped_from (Some c) k (Close c' # evs) = (c' = c \<and> scoped_from None k evs)"

text \<open>The connections that the events acquire, and the connection an event is about.\<close>

fun acquired :: "event list \<Rightarrow> nat list" where
  "acquired [] = []"
| "acquired (Acquire c # evs) = c # acquired evs"
| "acquired (Use c # evs) = acquired evs"
| "acquired (Close c # evs) = acquired evs"

fun conn_of :: "event \<Rightarrow> nat" where
  "conn_of (Acquire c) = c"
| "conn_of (Use c) = c"
| "conn_of (Close c) = c"

text \<open>The connections that the events acquire and leave open.\<close>

fun left_open :: "event list \<Rightarrow> nat list \<Rightarrow> nat list" where
  "left_open [] opened = opened"
| "left_open (Acquire c # evs) opened = left_open evs (c # opened)"
| "left_open (Use c # evs) opened = left_open evs opened"
| "left_open (Close c # evs) opened = left_open evs (removeAll c opened)"

section \<open>A reference setting\<close>

text \<open>
  A dialect with two column types, a mapping, and a database engine that keeps one table:
  the rows are the parameter lists of the \<open>INSERT\<close> statements it has run, the id being the
  first parameter; \<open>SELECT MAX(\<dots>)\<close> answers with the largest id, or with SQL \<open>NULL\<close> for
  the empty table; any other query answers with the rows whose id follows the last \<open>=\<close> sign
  of the statement.
\<close>

definition integer_type :: column_type where
  "integer_type = \<lparr>jdbcTypeNumber = 4, getSql = (\<lambda>l p s. ''integer''), needsQuotes = False,
                    ct_quote = js_text, ct_get = (\<lambda>v. if v = Null then Num 0 else v)\<rparr>"

definition string_type :: column_type where
  "string_type = \<lparr>jdbcTypeNumber = 12, getSql = (\<lambda>l p s. ''varchar''), needsQuotes = True,
                   ct_quote = (\<lambda>v. [CHR 0x27] @ js_text v @ [CHR 0x27]), ct_get = (\<lambda>v. v)\<rparr>"

definition demo_dialect :: dialect where
  "demo_dialect =
     \<lparr>quote = (\<lambda>s. [CHR 0x22] @ s @ [CHR 0x22]),
      hasSequenceSupport = True,
      getSqlNextSequenceValue = (\<lambda>s. ''SELECT NEXT VALUE FOR '' @ s),
      getEngineType = None,
      getColumnType = (\<lambda>t. if t = ''integer'' then Some integer_type
                            else if t = ''string'' then Some string_type else None),
      getColumnTypeByJdbcNumber = (\<lambda>n. if n = 4 then Some integer_type
                                        else if n = 12 then Some string_type else None)\<rparr>"

definition person_mapping :: mapping where
  "person_mapping =
     \<lparr>tableName = ''person'', idColumnName = ''id'', idSequenceName = None,
      properties =
        [(''name'', \<lparr>p_column = None, p_type = Some ''string'', p_nullable = None, p_length = None,
                     p_precision = None, p_scale = None, p_default = Undefined, p_unique = None\<rparr>),
         (''age'', \<lparr>p_column = None, p_type = Some ''integer'', p_nullable = Some True,
                    p_length = None, p_precision = None, p_scale = None, p_default = Undefined,
                    p_unique = None\<rparr>)]\<rparr>"

type_synonym table_rows = "(nat \<times> jsval) list list"

definition row_id :: "(nat \<times> jsval) list \<Rightarrow> int" where
  "row_id r = (case map_of r 1 of Some (Num i) \<Rightarrow> i | _ \<Rightarrow> 0)"

fun max_id :: "table_rows \<Rightarrow> jsval" where
  "max_id [] = Null"
| "max_id (r # rs) = (case max_id rs of Num i \<Rightarrow> Num (max (row_id r) i) | _ \<Rightarrow> Num (row_id r))"

definition row_cells :: "(nat \<times> jsval) list \<Rightarrow> string \<Rightarrow> jsval" where
  "row_cells r label = (if label = ''id'' then Num (row_id r)
                        else if label = ''name'' then (case map_of r 2 of Some v \<Rightarrow> v | None \<Rightarrow> Null)
                        else Null)"

definition table_engine :: "(nat \<Rightarrow> bool) \<Rightarrow> table_rows driver" where
  "table_engine f =
     \<lparr>fails = f,
      run_query = (\<lambda>rows sql.
        if take 11 sql = ''SELECT MAX(''
        then (\<lparr>rs_columns = [(''MAX(id)'', 4)], rs_rows = [\<lambda>label. max_id rows]\<rparr>, rows)
        else (\<lparr>rs_columns = [(''id'', 4), (''name'', 12)],
               rs_rows = map row_cells
                  (filter (\<lambda>r. '' '' @ dec_int (row_id r)
                                = rev (takeWhile (\<lambda>c. c \<noteq> CHR ''='') (rev sql))) rows)\<rparr>,
              rows)),
      run_update = (\<lambda>rows sql params.
        if take 12 sql = ''INSERT INTO '' then (1, rows @ [params]) else (0, rows)),
      db_product = (\<lambda>rows. (''H2'', 1)),
      db_tables = (\<lambda>rows. [\<lparr>tm_name = ''person'', tm_schema = None, tm_catalog = None,
                              tm_type = ''TABLE''\<rparr>]),
      db_columns = (\<lambda>rows s t c. []),
      db_pkeys = (\<lambda>rows s t. [])\<rparr>"

text \<open>
  A store on that engine with the type \<open>Person\<close> registered and the dialect determined; key
  0 is a transient Person key, key 1 a persistent one, and transaction 0 owns connection 0.
\<close>

definition demo_world :: "(nat \<Rightarrow> bool) \<Rightarrow> table_rows \<Rightarrow> table_rows world" where
  "demo_world f rows =
     \<lparr>drv = table_engine f, db = rows, tick = 0, next_conn = 1, trace = [],
      modules = (\<lambda>path. demo_dialect), dialect_cache = Some demo_dialect,
      registry = (\<lambda>t. if t = ''Person'' then Some \<lparr>ctype = ''Person'', cmapping = person_mapping\<rparr>
                      else None),
      keys = (\<lambda>k. if k = 1 then \<lparr>ktype = ''Person'', kid = Num 7\<rparr>
                  else \<lparr>ktype = ''Person'', kid = Null\<rparr>),
      next_key = 2,
      txns = (\<lambda>t. \<lparr>tconn = 0, inserted = [], updated = [], deleted = []\<rparr>)\<rparr>"

definition ann :: "nat \<Rightarrow> entity" where
  "ann k = \<lparr>ekey = k, eprops = (\<lambda>n. if n = ''name'' then Str ''Ann'' else Undefined)\<rparr>"

definition text_column :: column where
  "text_column = \<lparr>c_name = ''bio'', c_type = Some ''text'', c_nullable = None, c_length = None,
                   c_precision = None, c_scale = None, c_default = Undefined\<rparr>"

section \<open>Predicates on computations\<close>

text \<open>
  \<open>io_adds A m\<close>: once the dialect is determined, \<open>m\<close> leaves the dialect and the pool as
  they are and appends only events of \<open>A\<close> to the log.
\<close>

definition io_adds :: "event set \<Rightarrow> ('db, 'a) io \<Rightarrow> bool" where
  "io_adds A m \<longleftrightarrow>
     (\<forall>w. dialect_cache w \<noteq> None \<longrightarrow>
        dialect_cache (snd (m w)) = dialect_cache w \<and> next_conn (snd (m w)) = next_conn w \<and>
        (\<exists>evs. trace (snd (m w)) = trace w @ evs \<and> set evs \<subseteq> A))"

text \<open>
  \<open>io_scoped k m\<close>: once the dialect is determined, what \<open>m\<close> appends to the log is at most \<open>k\<close>
  scoped uses of connections that are new, and exactly \<open>k\<close> when \<open>m\<close> returns normally.
\<close>

definition io_scoped :: "nat \<Rightarrow> ('db, 'a) io \<Rightarrow> bool" where
  "io_scoped k m \<longleftrightarrow>
     (\<forall>w. dialect_cache w \<noteq> None \<longrightarrow>
        dialect_cache (snd (m w)) = dialect_cache w \<and> next_conn w \<le> next_conn (snd (m w)) \<and>
        (\<exists>evs. trace (snd (m w)) = trace w @ evs \<and> scoped_from None k evs \<and>
               (\<forall>x. fst (m w) = Inr x \<longrightarrow> length (acquired evs) = k) \<and>
               (\<forall>e \<in> set evs. next_conn w \<le> conn_of e)))"

text \<open>
  \<open>io_keeps m\<close>: \<open>m\<close> leaves every Key, every transaction and the registry as they are
  and creates no Key. \<open>io_commits R m\<close>: when
  \<open>m\<close> throws, every Key and every transaction is as before; when it returns, keys and
  transactions before and after are related by \<open>R\<close>.
\<close>

type_synonym heap = "(nat \<Rightarrow> key) \<times> (nat \<Rightarrow> txn) \<times> nat \<times> (string \<Rightarrow> ctor option)"

definition heap_of :: "'db world \<Rightarrow> heap" where
  "heap_of w = (keys w, txns w, next_key w, registry w)"

definition io_keeps :: "('db, 'a) io \<Rightarrow> bool" where
  "io_keeps m \<longleftrightarrow> (\<forall>w. heap_of (snd (m w)) = heap_of w)"

definition io_commits :: "(heap \<Rightarrow> heap \<Rightarrow> bool) \<Rightarrow> ('db, 'a) io \<Rightarrow> bool" where
  "io_commits R m \<longleftrightarrow>
     (\<forall>w. case fst (m w) of
            Inl e \<Rightarrow> heap_of (snd (m w)) = heap_of w
          | Inr x \<Rightarrow> R (heap_of w) (heap_of (snd (m w))))"

text \<open>What the three operations do to the heap when their statement has run.\<close>

definition pushed_inserted :: "nat option \<Rightarrow> nat \<Rightarrow> (nat \<Rightarrow> txn) \<Rightarrow> (nat \<Rightarrow> txn)" where
  "pushed_inserted transaction k tx =
     (case transaction of None \<Rightarrow> tx | Some t \<Rightarrow> tx(t := (tx t)\<lparr>inserted := inserted (tx t) @ [k]\<rparr>))"

definition pushed_updated :: "nat option \<Rightarrow> nat \<Rightarrow> (nat \<Rightarrow> txn) \<Rightarrow> (nat \<Rightarrow> txn)" where
  "pushed_updated transaction k tx =
     (case transaction of None \<Rightarrow> tx | Some t \<Rightarrow> tx(t := (tx t)\<lparr>updated := updated (tx t) @ [k]\<rparr>))"

definition pushed_deleted :: "nat option \<Rightarrow> nat \<Rightarrow> (nat \<Rightarrow> txn) \<Rightarrow> (nat \<Rightarrow> txn)" where
  "pushed_deleted transaction k tx =
     (case transaction of None \<Rightarrow> tx | Some t \<Rightarrow> tx(t := (tx t)\<lparr>deleted := deleted (tx t) @ [k]\<rparr>))"

text \<open>
  The words of the specification for \<open>save\<close>: the nested persistable objects among the
  property values (a value itself, or the elements of an array), in the order of the
  properties; and a property value with every such object replaced by its Key.
\<close>

fun element_storables :: "jsval \<Rightarrow> nat list" where
  "element_storables (StorableV r) = [r]"
| "element_storables v = []"

fun nested_storables :: "jsval \<Rightarrow> nat list" where
  "nested_storables (StorableV r) = [r]"
| "nested_storables (Arr vs) = concat (map element_storables vs)"
| "nested_storables v = []"

fun element_key :: "(nat \<Rightarrow> nat) \<Rightarrow> jsval \<Rightarrow> jsval" where
  "element_key skey (StorableV r) = KeyV (skey r)"
| "element_key skey v = v"

fun with_keys :: "(nat \<Rightarrow> nat) \<Rightarrow> jsval \<Rightarrow> jsval" where
  "with_keys skey (StorableV r) = KeyV (skey r)"
| "with_keys skey (Arr vs) = Arr (map (element_key skey) vs)"
| "with_keys skey v = v"

definition all_storables :: "(string \<times> jsval) list \<Rightarrow> nat list" where
  "all_storables props = concat (map (\<lambda>(name, v). nested_storables v) props)"

definition assigned :: "(nat \<Rightarrow> nat) \<Rightarrow> (string \<times> jsval) list \<Rightarrow> entity \<Rightarrow> entity" where
  "assigned skey props e =
     foldl (\<lambda>e1 (name, v). e1\<lparr>eprops := (eprops e1)(name := with_keys skey v)\<rparr>) e props"

text \<open>A Storable of the reference setting: saving it gives its Key the id 100 plus its number.\<close>

definition demo_ssave :: "nat \<Rightarrow> ('db, unit) io" where
  "demo_ssave r = set_key_id (10 + r) (Num (100 + int r))"

definition demo_skey :: "nat \<Rightarrow> nat" where
  "demo_skey r = 10 + r"

definition demo_props :: "(string \<times> jsval) list" where
  "demo_props = [(''name'', Str ''Bob''), (''friend'', StorableV 1)]"






text \<open>The mapping of a table that the reference engine does not have.\<close>

definition pet_mapping :: mapping where
  "pet_mapping = person_mapping\<lparr>tableName := ''pet''\<rparr>"

text \<open>
  A mapping whose property \<open>firstName\<close> is stored in the column \<open>first_name\<close> and has a
  default, and an entity that holds a value for \<open>firstName\<close>.
\<close>

definition named_mapping :: mapping where
  "named_mapping =
     \<lparr>tableName = ''person'', idColumnName = ''id'', idSequenceName = None,
      properties =
        [(''firstName'', \<lparr>p_column = Some ''first_name'', p_type = Some ''string'',
                          p_nullable = None, p_length = None, p_precision = None, p_scale = None,
                          p_default = Str ''unknown'', p_unique = None\<rparr>)]\<rparr>"

definition named_world :: "table_rows world" where
  "named_world =
     (demo_world (\<lambda>n. False) [])
       \<lparr>registry := (\<lambda>t. Some \<lparr>ctype = t, cmapping = named_mapping\<rparr>)\<rparr>"

definition ann_named :: entity where
  "ann_named = \<lparr>ekey = 0, eprops = (\<lambda>n. if n = ''firstName'' then Str ''Ann'' else Undefined)\<rparr>"


section \<open>Frame lemmas\<close>

lemma io_addsI:
  assumes "\<And>w. dialect_cache w \<noteq> None \<Longrightarrow>
             dialect_cache (snd (m w)) = dialect_cache w \<and> next_conn (snd (m w)) = next_conn w \<and>
             (\<exists>evs. trace (snd (m w)) = trace w @ evs \<and> set evs \<subseteq> A)"
  shows "io_adds A m"
  using assms by (simp add: io_adds_def)

lemma io_addsD:
  assumes "io_adds A m" and "dialect_cache w \<noteq> None" and "m w = (r, w')"
  shows "dialect_cache w' = dialect_cache w \<and> next_conn w' = next_conn w \<and>
         (\<exists>evs. trace w' = trace w @ evs \<and> set evs \<subseteq> A)"
proof -
  have "snd (m w) = w'" using assms(3) by simp
  then show ?thesis using assms(1,2) unfolding io_adds_def by metis
qed

lemma io_adds_mono: "io_adds A m \<Longrightarrow> A \<subseteq> B \<Longrightarrow> io_adds B m"
  unfolding io_adds_def by (meson subset_trans)

lemma io_adds_ret [simp]: "io_adds A (ret x)"
  by (simp add: io_adds_def ret_def)

lemma io_adds_throw [simp]: "io_adds A (throw e)"
  by (simp add: io_adds_def throw_def)

lemma io_adds_bnd:
  assumes "io_adds A m" and "\<And>x. io_adds A (f x)"
  shows "io_adds A (bnd m f)"
proof (rule io_addsI)
  fix w :: "'a world"
  assume c: "dialect_cache w \<noteq> None"
  obtain r w1 where m: "m w = (r, w1)" by (cases "m w")
  from io_addsD [OF assms(1) c m] obtain evs1 where
    w1: "dialect_cache w1 = dialect_cache w" "next_conn w1 = next_conn w"
        "trace w1 = trace w @ evs1" "set evs1 \<subseteq> A"
    by blast
  show "dialect_cache (snd (bnd m f w)) = dialect_cache w \<and> next_conn (snd (bnd m f w)) = next_conn w \<and>
        (\<exists>evs. trace (snd (bnd m f w)) = trace w @ evs \<and> set evs \<subseteq> A)"
  proof (cases r)
    case (Inl e)
    then have "snd (bnd m f w) = w1" using m by (simp add: bnd_def)
    then show ?thesis using w1 by simp
  next
    case (Inr x)
    obtain r2 w2 where f: "f x w1 = (r2, w2)" by (cases "f x w1")
    have c1: "dialect_cache w1 \<noteq> None" using c w1 by simp
    from io_addsD [OF assms(2) c1 f] obtain evs2 where
      w2: "dialect_cache w2 = dialect_cache w1" "next_conn w2 = next_conn w1"
        "trace w2 = trace w1 @ evs2" "set evs2 \<subseteq> A"
      by blast
    have s: "snd (bnd m f w) = w2" using m f Inr by (simp add: bnd_def)
    have "trace w2 = trace w @ (evs1 @ evs2) \<and> set (evs1 @ evs2) \<subseteq> A" using w1 w2 by simp
    then have "\<exists>evs. trace w2 = trace w @ evs \<and> set evs \<subseteq> A" by blast
    then show ?thesis using s w1 w2 by simp
  qed
qed

lemma io_adds_try_finally:
  assumes "io_adds A body" and "io_adds A fin"
  shows "io_adds A (try_finally body fin)"
proof (rule io_addsI)
  fix w :: "'a world"
  assume c: "dialect_cache w \<noteq> None"
  obtain r w1 where m: "body w = (r, w1)" by (cases "body w")
  from io_addsD [OF assms(1) c m] obtain evs1 where
    w1: "dialect_cache w1 = dialect_cache w" "next_conn w1 = next_conn w"
        "trace w1 = trace w @ evs1" "set evs1 \<subseteq> A"
    by blast
  obtain r2 w2 where f: "fin w1 = (r2, w2)" by (cases "fin w1")
  have c1: "dialect_cache w1 \<noteq> None" using c w1 by simp
  from io_addsD [OF assms(2) c1 f] obtain evs2 where
    w2: "dialect_cache w2 = dialect_cache w1" "next_conn w2 = next_conn w1"
        "trace w2 = trace w1 @ evs2" "set evs2 \<subseteq> A"
    by blast
  have s: "snd (try_finally body fin w) = w2"
    using m f by (cases r2) (simp_all add: try_finally_def)
  have "trace w2 = trace w @ (evs1 @ evs2) \<and> set (evs1 @ evs2) \<subseteq> A" using w1 w2 by simp
  then have "\<exists>evs. trace w2 = trace w @ evs \<and> set evs \<subseteq> A" by blast
  then show "dialect_cache (snd (try_finally body fin w)) = dialect_cache w \<and>
        next_conn (snd (try_finally body fin w)) = next_conn w \<and>
        (\<exists>evs. trace (snd (try_finally body fin w)) = trace w @ evs \<and> set evs \<subseteq> A)"
    using s w1 w2 by simp
qed

lemma io_adds_jdbc: "Use c \<in> A \<Longrightarrow> io_adds A (jdbc c)"
  by (rule io_addsI) (simp add: jdbc_def)

lemma io_adds_step:
  assumes "\<And>w. dialect_cache (snd (m w)) = dialect_cache w \<and> next_conn (snd (m w)) = next_conn w
                \<and> trace (snd (m w)) = trace w"
  shows "io_adds A m"
proof (rule io_addsI)
  fix w :: "'a world"
  have "trace (snd (m w)) = trace w @ [] \<and> set [] \<subseteq> A" using assms [of w] by simp
  then have "\<exists>evs. trace (snd (m w)) = trace w @ evs \<and> set evs \<subseteq> A" by blast
  then show "dialect_cache (snd (m w)) = dialect_cache w \<and> next_conn (snd (m w)) = next_conn w \<and>
        (\<exists>evs. trace (snd (m w)) = trace w @ evs \<and> set evs \<subseteq> A)"
    using assms [of w] by simp
qed

lemma io_adds_executeQuery: "Use c \<in> A \<Longrightarrow> io_adds A (executeQuery c sql)"
  unfolding executeQuery_def
  by (intro io_adds_bnd io_adds_jdbc io_adds_step) (auto split: prod.splits)

lemma io_adds_executeUpdate: "Use c \<in> A \<Longrightarrow> io_adds A (executeUpdate c sql ps)"
  unfolding executeUpdate_def
  by (intro io_adds_bnd io_adds_jdbc io_adds_step) (auto split: prod.splits)

lemma io_adds_close: "Close c \<in> A \<Longrightarrow> io_adds A (close (Some c))"
  by (rule io_addsI) (simp add: close_def)

lemma io_adds_close_None [simp]: "io_adds A (close None)"
  by (rule io_adds_step) (simp add: close_def)

lemma io_adds_close_handle [simp]: "io_adds A close_handle"
  by (simp add: close_handle_def)

lemma io_adds_jdbc_n: "Use c \<in> A \<Longrightarrow> io_adds A (jdbc_n c n)"
  by (induction n) (simp_all add: io_adds_bnd io_adds_jdbc)

lemma io_adds_cursor_loop:
  assumes "Use c \<in> A" and "\<And>r. io_adds A (body r)"
  shows "io_adds A (cursor_loop c body rs)"
  using assms by (induction rs) (simp_all add: io_adds_bnd io_adds_jdbc)


lemma io_adds_world:
  assumes "\<And>v. io_adds A (f v)"
  shows "io_adds A (\<lambda>w. f w w)"
  using assms by (simp add: io_adds_def)

lemma io_adds_get_dialect [simp]: "io_adds A get_dialect"
proof (rule io_addsI)
  fix w :: "'a world"
  assume "dialect_cache w \<noteq> None"
  then have "snd (get_dialect w) = w" by (auto simp: get_dialect_def)
  then show "dialect_cache (snd (get_dialect w)) = dialect_cache w \<and>
         next_conn (snd (get_dialect w)) = next_conn w \<and>
         (\<exists>evs. trace (snd (get_dialect w)) = trace w @ evs \<and> set evs \<subseteq> A)"
    by simp
qed

lemma io_adds_case_option:
  assumes "io_adds A n" and "\<And>x. io_adds A (s x)"
  shows "io_adds A (case v of None \<Rightarrow> n | Some x \<Rightarrow> s x)"
  using assms by (cases v) simp_all

lemma io_adds_case_list:
  assumes "io_adds A n" and "\<And>x xs. io_adds A (c x xs)"
  shows "io_adds A (case v of [] \<Rightarrow> n | x # xs \<Rightarrow> c x xs)"
  using assms by (cases v) simp_all

lemma io_adds_case_prod:
  assumes "\<And>x y. io_adds A (f x y)"
  shows "io_adds A (case v of (x, y) \<Rightarrow> f x y)"
  using assms by (cases v) simp_all

lemma io_adds_if:
  assumes "io_adds A m" and "io_adds A n"
  shows "io_adds A (if b then m else n)"
  using assms by simp

lemma get_dialect_cached: "dialect_cache w = Some d \<Longrightarrow> get_dialect w = (Inr d, w)"
  by (simp add: get_dialect_def)

lemma io_adds_getEntityConstructor [simp]: "io_adds A (getEntityConstructor t)"
  by (rule io_adds_step) (auto simp: getEntityConstructor_def split: option.splits)

lemma io_adds_getEntityMapping [simp]: "io_adds A (getEntityMapping t)"
  unfolding getEntityMapping_def by (simp add: io_adds_bnd)

lemma io_adds_read_key [simp]: "io_adds A (read_key k)"
  by (rule io_adds_step) (simp add: read_key_def)

lemma io_adds_set_key_id [simp]: "io_adds A (set_key_id k v)"
  by (rule io_adds_step) (simp add: set_key_id_def)

lemma io_adds_new_key [simp]: "io_adds A (new_key t v)"
  by (rule io_adds_step) (simp add: new_key_def)

lemma io_adds_push_inserted [simp]: "io_adds A (push_inserted t k)"
  by (rule io_adds_step) (simp add: push_inserted_def split: option.splits)

lemma io_adds_push_updated [simp]: "io_adds A (push_updated t k)"
  by (rule io_adds_step) (simp add: push_updated_def split: option.splits)

lemma io_adds_push_deleted [simp]: "io_adds A (push_deleted t k)"
  by (rule io_adds_step) (simp add: push_deleted_def split: option.splits)

lemma io_adds_id_toString [simp]: "io_adds A (id_toString v)"
  by (simp add: id_toString_def)

lemma io_adds_getColumns:
  assumes "Use c \<in> A"
  shows "io_adds A (getColumns c t s p)"
  unfolding getColumns_def
proof (intro io_adds_try_finally io_adds_bnd io_adds_jdbc assms io_adds_close_handle)
  fix u :: unit
  show "io_adds A (\<lambda>w. cursor_loop c
            (\<lambda>m. bnd (jdbc_n c 7) (\<lambda>u.
               ret \<lparr>ci_name = cm_name m, ci_type = cm_type m, ci_length = cm_size m,
                    ci_nullable = (cm_nullable m \<noteq> 0), ci_default = cm_default m,
                    ci_precision = cm_digits m, ci_scale = cm_radix m\<rparr>))
            (db_columns (drv w) (db w) (pattern_or_all s) (pattern_or_all t)
               (pattern_or_all p)) w)"
    by (rule io_adds_world)
       (intro io_adds_cursor_loop io_adds_bnd io_adds_jdbc_n io_adds_ret assms)
qed

lemma io_adds_getPrimaryKeys:
  assumes "Use c \<in> A"
  shows "io_adds A (getPrimaryKeys c t s)"
  unfolding getPrimaryKeys_def
proof (intro io_adds_try_finally io_adds_bnd io_adds_jdbc assms io_adds_close_handle)
  fix u :: unit
  show "io_adds A (\<lambda>w. cursor_loop c
            (\<lambda>m. bnd (jdbc_n c 3) (\<lambda>u.
               ret \<lparr>pi_name = pk_column m, pi_sequenceNumber = pk_seq m,
                    pi_primaryKeyName = pk_name m\<rparr>))
            (db_pkeys (drv w) (db w) (if s = Some [] then None else s) t) w)"
    by (rule io_adds_world)
       (intro io_adds_cursor_loop io_adds_bnd io_adds_jdbc_n io_adds_ret assms)
qed

lemma io_adds_getTables:
  assumes "Use c \<in> A" and "Close c \<in> A"
  shows "io_adds A (getTables c)"
  unfolding getTables_def
proof (intro io_adds_try_finally io_adds_bnd io_adds_jdbc assms io_adds_close_handle io_adds_close)
  fix u :: unit
  show "io_adds A (\<lambda>w. cursor_loop c
            (\<lambda>t. bnd (jdbc_n c 4) (\<lambda>u.
                  bnd (getColumns c (Some (tm_name t)) (tm_schema t) None) (\<lambda>cols.
                  bnd (getPrimaryKeys c (tm_name t) (tm_schema t)) (\<lambda>pks.
                  ret \<lparr>ti_name = tm_name t, ti_schema = tm_schema t, ti_catalog = tm_catalog t,
                       ti_type = tm_type t, ti_columns = cols, ti_primaryKeys = pks\<rparr>))))
            (db_tables (drv w) (db w)) w)"
    by (rule io_adds_world)
       (intro io_adds_cursor_loop io_adds_bnd io_adds_jdbc_n io_adds_ret assms
          io_adds_getColumns io_adds_getPrimaryKeys)
qed

lemma io_adds_read_columns:
  "Use c \<in> A \<Longrightarrow> io_adds A (read_columns c cells cols row)"
proof (induction cols arbitrary: row)
  case Nil
  then show ?case by simp
next
  case (Cons col cols)
  obtain columnName columnType where col: "col = (columnName, columnType)" by (cases col)
  show ?case unfolding col read_columns.simps
    by (intro io_adds_bnd io_adds_jdbc Cons.prems io_adds_get_dialect io_adds_case_option
        io_adds_throw Cons.IH)
qed

lemma io_adds_bind_insert:
  "Use c \<in> A \<Longrightarrow> io_adds A (bind_insert c m e v cols idx)"
proof (induction cols arbitrary: idx)
  case Nil
  then show ?case by simp
next
  case (Cons col cols)
  obtain name dataType where col: "col = (name, dataType)" by (cases col)
  show ?case unfolding col bind_insert.simps
    by (cases dataType) (simp_all add: Cons io_adds_bnd io_adds_jdbc)
qed

lemma io_adds_bind_update:
  "Use c \<in> A \<Longrightarrow> io_adds A (bind_update c e cols idx)"
proof (induction cols arbitrary: idx)
  case Nil
  then show ?case by simp
next
  case (Cons col cols)
  obtain name dataType where col: "col = (name, dataType)" by (cases col)
  show ?case unfolding col bind_update.simps
    by (cases dataType) (simp_all add: Cons io_adds_bnd io_adds_jdbc)
qed

lemma io_adds_query_body: "Use c \<in> A \<Longrightarrow> io_adds A (query_body c sql)"
  unfolding query_body_def
  by (intro io_adds_bnd io_adds_jdbc io_adds_executeQuery io_adds_cursor_loop io_adds_read_columns)

lemma io_adds_generateId_body: "Use c \<in> A \<Longrightarrow> io_adds A (generateId_body c sql off)"
  unfolding generateId_body_def
  by (intro io_adds_bnd io_adds_jdbc io_adds_executeQuery io_adds_case_list io_adds_case_prod
      io_adds_case_option io_adds_throw io_adds_get_dialect io_adds_ret)

lemma io_adds_max_id_sql [simp]: "io_adds A (max_id_sql m)"
  unfolding max_id_sql_def by (simp add: io_adds_bnd)

lemma io_adds_generateId_sql [simp]: "io_adds A (generateId_sql m)"
  unfolding generateId_sql_def
  by (intro io_adds_case_option io_adds_max_id_sql io_adds_bnd io_adds_get_dialect io_adds_if
      io_adds_ret)


section \<open>Scoped uses of a connection\<close>

lemma new_events_append: "trace w' = trace w @ evs \<Longrightarrow> new_events w w' = evs"
  by (simp add: new_events_def)

lemma scoped_from_mono: "scoped_from s j evs \<Longrightarrow> j \<le> k \<Longrightarrow> scoped_from s k evs"
  by (induction s j evs arbitrary: k rule: scoped_from.induct) auto

lemma scoped_from_append:
  "scoped_from s j evs1 \<Longrightarrow> scoped_from None k evs2 \<Longrightarrow> scoped_from s (j + k) (evs1 @ evs2)"
proof (induction s j evs1 rule: scoped_from.induct)
  case (1 j)
  then show ?case by (simp add: scoped_from_mono)
next
  case (3 j c evs)
  then show ?case by (cases j) simp_all
qed simp_all

lemma scoped_uses_close:
  "set evs \<subseteq> {Use c} \<Longrightarrow> scoped_from (Some c) k (evs @ [Close c])"
  by (induction evs) auto

lemma io_scopedD:
  assumes "io_scoped k m" and "dialect_cache w \<noteq> None" and "m w = (r, w')"
  shows "dialect_cache w' = dialect_cache w \<and> next_conn w \<le> next_conn w' \<and>
         (\<exists>evs. trace w' = trace w @ evs \<and> scoped_from None k evs \<and>
                (\<forall>x. r = Inr x \<longrightarrow> length (acquired evs) = k) \<and>
                (\<forall>e \<in> set evs. next_conn w \<le> conn_of e))"
proof -
  have "snd (m w) = w'" "fst (m w) = r" using assms(3) by simp_all
  then show ?thesis using assms(1,2) unfolding io_scoped_def by metis
qed

lemma io_scopedI:
  assumes "\<And>w. dialect_cache w \<noteq> None \<Longrightarrow>
        dialect_cache (snd (m w)) = dialect_cache w \<and> next_conn w \<le> next_conn (snd (m w)) \<and>
        (\<exists>evs. trace (snd (m w)) = trace w @ evs \<and> scoped_from None k evs \<and>
               (\<forall>x. fst (m w) = Inr x \<longrightarrow> length (acquired evs) = k) \<and>
               (\<forall>e \<in> set evs. next_conn w \<le> conn_of e))"
  shows "io_scoped k m"
  using assms unfolding io_scoped_def by blast

lemma io_scoped_events:
  assumes "io_scoped k m" and "dialect_cache w \<noteq> None"
  shows "scoped_from None k (new_events w (snd (m w))) \<and>
         (\<forall>x. fst (m w) = Inr x \<longrightarrow> length (acquired (new_events w (snd (m w)))) = k)"
proof -
  obtain r w' where m: "m w = (r, w')" by (cases "m w")
  from io_scopedD [OF assms m] obtain evs where
    "trace w' = trace w @ evs" "scoped_from None k evs" "\<forall>x. r = Inr x \<longrightarrow> length (acquired evs) = k"
    by blast
  then show ?thesis using m by (simp add: new_events_append)
qed

lemma acquired_append: "acquired (xs @ ys) = acquired xs @ acquired ys"
  by (induction xs rule: acquired.induct) simp_all

lemma acquired_uses: "set evs \<subseteq> {Use c, Close c} \<Longrightarrow> acquired evs = []"
  by (induction evs rule: acquired.induct) simp_all

lemma io_adds_scoped: 
  assumes "io_adds {} m"
  shows "io_scoped 0 m"
proof (rule io_scopedI)
  fix w :: "'a world"
  assume c: "dialect_cache w \<noteq> None"
  obtain r w' where m: "m w = (r, w')" by (cases "m w")
  from io_addsD [OF assms c m] have
    "dialect_cache w' = dialect_cache w" "trace w' = trace w @ []" "next_conn w' = next_conn w"
    by auto
  moreover have "scoped_from None 0 [] \<and> (\<forall>x. r = Inr x \<longrightarrow> length (acquired []) = 0) \<and>
               (\<forall>e \<in> set []. next_conn w \<le> conn_of e)" by simp
  ultimately have "dialect_cache w' = dialect_cache w \<and> next_conn w \<le> next_conn w' \<and>
     (\<exists>evs. trace w' = trace w @ evs \<and> scoped_from None 0 evs \<and>
            (\<forall>x. r = Inr x \<longrightarrow> length (acquired evs) = 0) \<and>
            (\<forall>e \<in> set evs. next_conn w \<le> conn_of e))"
    by (metis order_refl)
  then show "dialect_cache (snd (m w)) = dialect_cache w \<and> next_conn w \<le> next_conn (snd (m w)) \<and>
     (\<exists>evs. trace (snd (m w)) = trace w @ evs \<and> scoped_from None 0 evs \<and>
            (\<forall>x. fst (m w) = Inr x \<longrightarrow> length (acquired evs) = 0) \<and>
            (\<forall>e \<in> set evs. next_conn w \<le> conn_of e))"
    using m by simp
qed

lemma io_scoped_bnd:
  assumes "io_scoped j m" and "\<And>x. io_scoped k (f x)"
  shows "io_scoped (j + k) (bnd m f)"
proof (rule io_scopedI)
  fix w :: "'a world"
  assume c: "dialect_cache w \<noteq> None"
  obtain r w1 where m: "m w = (r, w1)" by (cases "m w")
  from io_scopedD [OF assms(1) c m] obtain evs1 where
    w1: "dialect_cache w1 = dialect_cache w" "next_conn w \<le> next_conn w1"
        "trace w1 = trace w @ evs1" "scoped_from None j evs1"
        "\<forall>x. r = Inr x \<longrightarrow> length (acquired evs1) = j"
        "\<forall>e \<in> set evs1. next_conn w \<le> conn_of e"
    by blast
  show "dialect_cache (snd (bnd m f w)) = dialect_cache w \<and> next_conn w \<le> next_conn (snd (bnd m f w)) \<and>
        (\<exists>evs. trace (snd (bnd m f w)) = trace w @ evs \<and> scoped_from None (j + k) evs \<and>
               (\<forall>x. fst (bnd m f w) = Inr x \<longrightarrow> length (acquired evs) = j + k) \<and>
               (\<forall>e \<in> set evs. next_conn w \<le> conn_of e))"
  proof (cases r)
    case (Inl e)
    then have s: "bnd m f w = (Inl e, w1)" using m by (simp add: bnd_def)
    have "scoped_from None (j + k) evs1" using w1 by (simp add: scoped_from_mono)
    then show ?thesis using w1 s by auto
  next
    case (Inr x)
    obtain r2 w2 where f: "f x w1 = (r2, w2)" by (cases "f x w1")
    have c1: "dialect_cache w1 \<noteq> None" using c w1 by simp
    from io_scopedD [OF assms(2) c1 f] obtain evs2 where
      w2: "dialect_cache w2 = dialect_cache w1" "next_conn w1 \<le> next_conn w2"
        "trace w2 = trace w1 @ evs2" "scoped_from None k evs2"
        "\<forall>x. r2 = Inr x \<longrightarrow> length (acquired evs2) = k"
        "\<forall>e \<in> set evs2. next_conn w1 \<le> conn_of e"
      by blast
    have s: "bnd m f w = (r2, w2)" using m f Inr by (simp add: bnd_def)
    have "trace w2 = trace w @ (evs1 @ evs2)" using w1 w2 by simp
    moreover have "scoped_from None (j + k) (evs1 @ evs2)"
      using w1 w2 by (simp add: scoped_from_append)
    moreover have "\<forall>x. r2 = Inr x \<longrightarrow> length (acquired (evs1 @ evs2)) = j + k"
      using w1 w2 Inr by (simp add: acquired_append)
    moreover have "\<forall>e \<in> set (evs1 @ evs2). next_conn w \<le> conn_of e"
      using w1 w2 by (auto intro: order_trans)
    ultimately have "\<exists>evs. trace w2 = trace w @ evs \<and> scoped_from None (j + k) evs \<and>
               (\<forall>x. r2 = Inr x \<longrightarrow> length (acquired evs) = j + k) \<and>
               (\<forall>e \<in> set evs. next_conn w \<le> conn_of e)" by blast
    then show ?thesis using s w1 w2 by simp
  qed
qed

lemma io_scoped_pre:
  assumes "io_adds {} m" and "\<And>x. io_scoped k (f x)"
  shows "io_scoped k (bnd m f)"
  using io_scoped_bnd [OF io_adds_scoped [OF assms(1)] assms(2)] by simp

text \<open>
  A connection acquired, handed to a body that only calls the driver on it, and closed by
  the \<open>finally\<close>: one scoped use, or nothing at all when the pool throws.
\<close>

lemma io_scoped_connection:
  assumes body: "\<And>c. io_adds {Use c} (body c)"
    and fin: "\<And>c w. fin c w = (Inr (), w\<lparr>trace := trace w @ [Close c]\<rparr>)"
  shows "io_scoped 1 (\<lambda>w. case getConnection w of
                             (Inl e, w1) \<Rightarrow> (Inl e, w1)
                           | (Inr conn, w1) \<Rightarrow> try_finally (body conn) (fin conn) w1)"
proof (rule io_scopedI)
  fix w :: "'a world"
  assume c: "dialect_cache w \<noteq> None"
  let ?m = "\<lambda>w. case getConnection w of
                             (Inl e, w1) \<Rightarrow> (Inl e, w1)
                           | (Inr conn, w1) \<Rightarrow> try_finally (body conn) (fin conn) w1"
  show "dialect_cache (snd (?m w)) = dialect_cache w \<and> next_conn w \<le> next_conn (snd (?m w)) \<and>
        (\<exists>evs. trace (snd (?m w)) = trace w @ evs \<and> scoped_from None 1 evs \<and>
               (\<forall>x. fst (?m w) = Inr x \<longrightarrow> length (acquired evs) = 1) \<and>
               (\<forall>e \<in> set evs. next_conn w \<le> conn_of e))"
  proof (cases "fails (drv w) (tick w)")
    case True
    then have s: "?m w = (Inl SqlException, w\<lparr>tick := Suc (tick w)\<rparr>)"
      by (simp add: getConnection_def)
    have "trace (snd (?m w)) = trace w @ [] \<and> scoped_from None 1 [] \<and>
               (\<forall>x. fst (?m w) = Inr x \<longrightarrow> length (acquired []) = 1) \<and>
               (\<forall>e \<in> set []. next_conn w \<le> conn_of e)"
      unfolding s by simp
    then have "\<exists>evs. trace (snd (?m w)) = trace w @ evs \<and> scoped_from None 1 evs \<and>
               (\<forall>x. fst (?m w) = Inr x \<longrightarrow> length (acquired evs) = 1) \<and>
               (\<forall>e \<in> set evs. next_conn w \<le> conn_of e)" by blast
    moreover have "dialect_cache (snd (?m w)) = dialect_cache w" "next_conn w \<le> next_conn (snd (?m w))"
      unfolding s by simp_all
    ultimately show ?thesis by simp
  next
    case False
    define conn where "conn = next_conn w"
    define w1 where "w1 = w\<lparr>tick := Suc (tick w), next_conn := Suc (next_conn w),
              trace := trace w @ [Acquire (next_conn w)]\<rparr>"
    have g: "getConnection w = (Inr conn, w1)"
      using False by (simp add: getConnection_def conn_def w1_def)
    obtain r w2 where b: "body conn w1 = (r, w2)" by (cases "body conn w1")
    have c1: "dialect_cache w1 \<noteq> None" using c by (simp add: w1_def)
    from io_addsD [OF body c1 b] obtain evs where
      w2: "dialect_cache w2 = dialect_cache w1" "next_conn w2 = next_conn w1"
          "trace w2 = trace w1 @ evs" "set evs \<subseteq> {Use conn}"
      by blast
    have s: "snd (?m w) = w2\<lparr>trace := trace w2 @ [Close conn]\<rparr>"
      using g b by (simp add: try_finally_def fin)
    have t: "trace (snd (?m w)) = trace w @ (Acquire conn # evs @ [Close conn])"
      using s w2 by (simp add: w1_def conn_def)
    have "set (evs @ [Close conn]) \<subseteq> {Use conn, Close conn}" using w2 by auto
    then have a: "acquired (evs @ [Close conn]) = []" by (rule acquired_uses)
    have "scoped_from None 1 (Acquire conn # evs @ [Close conn])"
      using scoped_uses_close [OF w2(4), of 0] by simp
    moreover have "length (acquired (Acquire conn # evs @ [Close conn])) = 1" using a by simp
    moreover have "\<forall>e \<in> set (Acquire conn # evs @ [Close conn]). next_conn w \<le> conn_of e"
      using w2(4) by (auto simp: conn_def)
    ultimately have "\<exists>evs. trace (snd (?m w)) = trace w @ evs \<and> scoped_from None 1 evs \<and>
               (\<forall>x. fst (?m w) = Inr x \<longrightarrow> length (acquired evs) = 1) \<and>
               (\<forall>e \<in> set evs. next_conn w \<le> conn_of e)"
      using t by blast
    moreover have "dialect_cache (snd (?m w)) = dialect_cache w" using s w2 by (simp add: w1_def)
    moreover have "next_conn w \<le> next_conn (snd (?m w))" using s w2 by (simp add: w1_def)
    ultimately show ?thesis by simp
  qed
qed

lemma close_after_handles:
  "bnd close_handle (\<lambda>u. bnd close_handle (\<lambda>u. close (Some c))) w = (Inr (), w\<lparr>trace := trace w @ [Close c]\<rparr>)"
  "bnd close_handle (\<lambda>u. close (Some c)) w = (Inr (), w\<lparr>trace := trace w @ [Close c]\<rparr>)"
  "close (Some c) w = (Inr (), w\<lparr>trace := trace w @ [Close c]\<rparr>)"
  by (simp_all add: bnd_def close_handle_def ret_def close_def)

lemma query_unfold:
  "query sql = (\<lambda>w. case getConnection w of
                      (Inl e, w1) \<Rightarrow> (Inl e, w1)
                    | (Inr conn, w1) \<Rightarrow>
                        try_finally (query_body conn sql)
                          (\<lambda>w. (bnd close_handle (\<lambda>u. bnd close_handle (\<lambda>u. close (Some conn)))) w) w1)"
  by (rule ext)
     (simp add: query_def try_finally_def throw_def bnd_def close_handle_def ret_def close_def
        split: prod.splits sum.splits)

lemma io_scoped_query: "io_scoped 1 (query sql)"
  unfolding query_unfold
  by (rule io_scoped_connection) (simp_all add: io_adds_query_body close_after_handles)

lemma bnd_getConnection:
  "bnd getConnection f = (\<lambda>w. case getConnection w of (Inl e, w1) \<Rightarrow> (Inl e, w1) | (Inr conn, w1) \<Rightarrow> f conn w1)"
  by (rule ext) (simp add: bnd_def split: prod.splits sum.splits)

lemma io_scoped_generateId: "io_scoped 1 (generateId type)"
  unfolding generateId_def
proof (intro io_scoped_pre io_adds_getEntityMapping io_adds_generateId_sql)
  fix m :: mapping and x :: "string \<times> int"
  obtain sql offset where x: "x = (sql, offset)" by (cases x)
  show "io_scoped 1 (case x of (sql, offset) \<Rightarrow>
          bnd getConnection (\<lambda>conn. try_finally (generateId_body conn sql offset)
              (bnd close_handle (\<lambda>u. bnd close_handle (\<lambda>u. close (Some conn))))))"
    unfolding x prod.case bnd_getConnection
    by (rule io_scoped_connection) (simp_all add: io_adds_generateId_body close_after_handles)
qed

lemma with_connection_None:
  "with_connection None body =
     (\<lambda>w. case getConnection w of
             (Inl e, w1) \<Rightarrow> (Inl e, w1)
           | (Inr conn, w1) \<Rightarrow>
               try_finally (bnd (jdbc conn) (\<lambda>u. body conn))
                 (\<lambda>w. (bnd close_handle (\<lambda>u. close (Some conn))) w) w1)"
  by (rule ext)
     (simp add: with_connection_def try_finally_def throw_def bnd_def close_handle_def ret_def close_def
        split: prod.splits sum.splits)

lemma io_scoped_with_connection:
  assumes "\<And>c. io_adds {Use c} (body c)"
  shows "io_scoped 1 (with_connection None body)"
  unfolding with_connection_None
  by (rule io_scoped_connection) (simp_all add: io_adds_bnd io_adds_jdbc assms close_after_handles)

lemma io_scoped_remove: "io_scoped 1 (remove k None)"
  unfolding remove_def
  by (intro io_scoped_pre io_adds_read_key io_adds_getEntityMapping io_adds_get_dialect
        io_scoped_with_connection io_adds_bnd io_adds_jdbc io_adds_case_option io_adds_throw
        io_adds_executeUpdate io_adds_push_deleted io_adds_ret) simp_all

lemma io_scoped_update: "io_scoped 1 (update e None)"
  unfolding update_def
  by (intro io_scoped_pre io_adds_read_key io_adds_getEntityMapping io_adds_get_dialect
        io_scoped_with_connection io_adds_bnd io_adds_jdbc io_adds_case_option io_adds_throw
        io_adds_executeUpdate io_adds_push_updated io_adds_ret io_adds_bind_update) simp_all

lemma io_scoped_insert: "io_scoped 2 (insert_entity e None)"
proof -
  have "io_scoped (1 + 1) (insert_entity e None)"
    unfolding insert_entity_def
    by (intro io_scoped_pre io_adds_read_key io_adds_getEntityMapping io_adds_get_dialect
        io_scoped_bnd io_scoped_generateId
        io_scoped_with_connection io_adds_bnd io_adds_jdbc io_adds_case_option io_adds_throw
        io_adds_executeUpdate io_adds_push_inserted io_adds_set_key_id io_adds_ret
        io_adds_bind_insert) simp_all
  then show ?thesis by (simp add: numeral_2_eq_2)
qed

lemma io_scoped_loadEntity: "io_scoped 1 (loadEntity type idv)"
proof -
  have "io_scoped (1 + 0) (loadEntity type idv)"
    unfolding loadEntity_def
    by (intro io_scoped_pre io_adds_getEntityMapping io_adds_get_dialect io_adds_id_toString
        io_scoped_bnd io_scoped_query io_adds_scoped io_adds_if io_adds_throw io_adds_case_list
        io_adds_ret io_adds_bnd io_adds_new_key)
  then show ?thesis by simp
qed

lemma io_scoped_isEntityExisting: "io_scoped 1 (isEntityExisting type idv)"
proof -
  have "io_scoped (1 + 0) (isEntityExisting type idv)"
    unfolding isEntityExisting_def
    by (intro io_scoped_pre io_adds_getEntityMapping io_adds_get_dialect io_adds_id_toString
        io_scoped_bnd io_scoped_query io_adds_scoped io_adds_if io_adds_throw
        io_adds_ret)
  then show ?thesis by simp
qed


section \<open>defineEntity\<close>

lemma left_open_uses:
  "set evs \<subseteq> {Use c, Close c} \<Longrightarrow>
   left_open evs opened = (if Close c \<in> set evs then removeAll c opened else opened)"
proof (induction evs arbitrary: opened)
  case Nil
  then show ?case by simp
next
  case (Cons e evs)
  then have e: "e = Use c \<or> e = Close c" and evs: "set evs \<subseteq> {Use c, Close c}" by auto
  from e show ?case
  proof
    assume "e = Use c"
    then show ?thesis using Cons.IH [OF evs] by simp
  next
    assume "e = Close c"
    then show ?thesis using Cons.IH [OF evs, of "removeAll c opened"] by simp
  qed
qed

lemma io_adds_createTable:
  assumes "Use c \<in> A" and "Close c \<in> A"
  shows "io_adds A (createTable c d t cols pk)"
  unfolding createTable_def
  by (cases "createTable_sql d t cols pk")
     (simp_all add: io_adds_try_finally io_adds_bnd io_adds_jdbc io_adds_executeUpdate
        io_adds_close assms)

lemma io_adds_createSequence:
  assumes "Use c \<in> A" and "Close c \<in> A"
  shows "io_adds A (createSequence c d n)"
  unfolding createSequence_def
  by (simp add: io_adds_try_finally io_adds_bnd io_adds_jdbc io_adds_executeUpdate
        io_adds_close assms)

lemma io_adds_drop_object:
  assumes "Use c \<in> A" and "Close c \<in> A"
  shows "io_adds A (drop_object c d tn n sn)"
  unfolding drop_object_def
  by (simp add: io_adds_try_finally io_adds_bnd io_adds_jdbc io_adds_executeUpdate
        io_adds_close assms)

lemma io_adds_store_createTable:
  assumes "Use c \<in> A" and "Close c \<in> A"
  shows "io_adds A (store_createTable c d m)"
  unfolding store_createTable_def
  by (simp split: sum.splits prod.splits add: io_adds_createTable assms)

lemma close_after_handle_fun:
  "bnd close_handle (\<lambda>u. close (Some c)) = (\<lambda>w. (Inr (), w\<lparr>trace := trace w @ [Close c]\<rparr>))"
  by (rule ext) (simp add: bnd_def close_handle_def ret_def close_def)

lemma getTables_trace:
  assumes c: "dialect_cache w \<noteq> None"
  shows "dialect_cache (snd (getTables conn w)) = dialect_cache w \<and>
         next_conn (snd (getTables conn w)) = next_conn w \<and>
         (\<exists>evs. trace (snd (getTables conn w)) = trace w @ evs @ [Close conn] \<and> set evs \<subseteq> {Use conn})"
proof -
  define body :: "('a, table_info list) io" where "body =
       (bnd (jdbc conn) (\<lambda>u.
        bnd (jdbc conn) (\<lambda>u w.
          cursor_loop conn
            (\<lambda>t. bnd (jdbc_n conn 4) (\<lambda>u.
                  bnd (getColumns conn (Some (tm_name t)) (tm_schema t) None) (\<lambda>cols.
                  bnd (getPrimaryKeys conn (tm_name t) (tm_schema t)) (\<lambda>pks.
                  ret \<lparr>ti_name = tm_name t, ti_schema = tm_schema t, ti_catalog = tm_catalog t,
                       ti_type = tm_type t, ti_columns = cols, ti_primaryKeys = pks\<rparr>))))
            (db_tables (drv w) (db w)) w)))"
  have b: "io_adds {Use conn} body"
    unfolding body_def
  proof (intro io_adds_bnd io_adds_jdbc)
    show "Use conn \<in> {Use conn}" by simp
    show "Use conn \<in> {Use conn}" by simp
    fix u :: unit
    show "io_adds {Use conn} (\<lambda>w. cursor_loop conn
            (\<lambda>t. bnd (jdbc_n conn 4) (\<lambda>u.
                  bnd (getColumns conn (Some (tm_name t)) (tm_schema t) None) (\<lambda>cols.
                  bnd (getPrimaryKeys conn (tm_name t) (tm_schema t)) (\<lambda>pks.
                  ret \<lparr>ti_name = tm_name t, ti_schema = tm_schema t, ti_catalog = tm_catalog t,
                       ti_type = tm_type t, ti_columns = cols, ti_primaryKeys = pks\<rparr>))))
            (db_tables (drv w) (db w)) w)"
      by (rule io_adds_world)
         (intro io_adds_cursor_loop io_adds_bnd io_adds_jdbc_n io_adds_ret
            io_adds_getColumns io_adds_getPrimaryKeys, simp_all)
  qed
  obtain r w1 where m: "body w = (r, w1)" by (cases "body w")
  from io_addsD [OF b c m] obtain evs where
    w1: "dialect_cache w1 = dialect_cache w" "next_conn w1 = next_conn w"
        "trace w1 = trace w @ evs" "set evs \<subseteq> {Use conn}"
    by blast
  have "getTables conn w = (r, w1\<lparr>trace := trace w1 @ [Close conn]\<rparr>)"
    unfolding getTables_def body_def [symmetric] close_after_handle_fun
    using m by (simp add: try_finally_def)
  then show ?thesis using w1 by simp
qed

lemma new_events_same [simp]: "new_events w w = []"
  by (simp add: new_events_def)

lemma defineEntity_events:
  assumes c: "dialect_cache w \<noteq> None"
  shows "left_open (new_events w (snd (defineEntity type m w))) [] = [] \<and>
         length (acquired (new_events w (snd (defineEntity type m w)))) \<le> 1"
proof (cases "registry w type")
  case (Some ct)
  then show ?thesis by (simp add: defineEntity_def)
next
  case None
  define w0 where "w0 = w\<lparr>registry := (registry w)(type \<mapsto> \<lparr>ctype = type, cmapping = m\<rparr>)\<rparr>"
  define rest :: "nat \<Rightarrow> bool \<Rightarrow> ('a, ctor) io" where "rest = (\<lambda>conn found.
             if \<not> found then
               bnd get_dialect (\<lambda>d.
               bnd (store_createTable conn d m) (\<lambda>n.
                 (case idSequenceName m of
                    None \<Rightarrow> ret \<lparr>ctype = type, cmapping = m\<rparr>
                  | Some sequenceName \<Rightarrow>
                      bnd get_dialect (\<lambda>d1.
                        if hasSequenceSupport d1
                        then bnd get_dialect (\<lambda>d2.
                             bnd (createSequence conn d2 sequenceName) (\<lambda>n. ret \<lparr>ctype = type, cmapping = m\<rparr>))
                        else ret \<lparr>ctype = type, cmapping = m\<rparr>))))
             else ret \<lparr>ctype = type, cmapping = m\<rparr>)"
  have d: "defineEntity type m w =
      bnd getConnection (\<lambda>conn. bnd (tableExists conn (tableName m)) (rest conn)) w0"
    using None by (simp add: defineEntity_def w0_def rest_def Let_def)
  have rest: "io_adds {Use conn, Close conn} (rest conn found)" for conn found
    unfolding rest_def
    by (intro io_adds_if io_adds_bnd io_adds_get_dialect io_adds_store_createTable
          io_adds_case_option io_adds_ret io_adds_createSequence) simp_all
  have c0: "dialect_cache w0 \<noteq> None" using c by (simp add: w0_def)
  have t0: "trace w0 = trace w" by (simp add: w0_def)
  show ?thesis
  proof (cases "fails (drv w0) (tick w0)")
    case True
    then have "trace (snd (defineEntity type m w)) = trace w"
      unfolding d by (simp add: bnd_def getConnection_def t0)
    then show ?thesis by (simp add: new_events_def)
  next
    case False
    define conn where "conn = next_conn w0"
    define w1 where "w1 = w0\<lparr>tick := Suc (tick w0), next_conn := Suc (next_conn w0),
              trace := trace w0 @ [Acquire (next_conn w0)]\<rparr>"
    have g: "getConnection w0 = (Inr conn, w1)"
      using False by (simp add: getConnection_def conn_def w1_def)
    have c1: "dialect_cache w1 \<noteq> None" using c0 by (simp add: w1_def)
    obtain r w2 where gt: "getTables conn w1 = (r, w2)" by (cases "getTables conn w1")
    from getTables_trace [OF c1, of conn] gt obtain evs1 where
      w2: "dialect_cache w2 = dialect_cache w1" "trace w2 = trace w1 @ evs1 @ [Close conn]"
          "set evs1 \<subseteq> {Use conn}"
      by auto
    have "\<exists>evs2. trace (snd (defineEntity type m w)) = trace w2 @ evs2 \<and> set evs2 \<subseteq> {Use conn, Close conn}"
    proof (cases r)
      case (Inl e)
      then have "snd (defineEntity type m w) = w2"
        unfolding d using g gt by (simp add: bnd_def tableExists_def)
      then show ?thesis by simp
    next
      case (Inr tables)
      obtain r3 w3 where k: "rest conn (tableName m \<in> set (map ti_name tables)) w2 = (r3, w3)"
        by (cases "rest conn (tableName m \<in> set (map ti_name tables)) w2")
      have c2: "dialect_cache w2 \<noteq> None" using c1 w2 by simp
      from io_addsD [OF rest c2 k] obtain evs2 where
        "trace w3 = trace w2 @ evs2" "set evs2 \<subseteq> {Use conn, Close conn}" by blast
      moreover have "snd (defineEntity type m w) = w3"
        unfolding d using g gt k Inr by (simp add: bnd_def tableExists_def ret_def)
      ultimately show ?thesis by blast
    qed
    then obtain evs2 where
      w3: "trace (snd (defineEntity type m w)) = trace w2 @ evs2" "set evs2 \<subseteq> {Use conn, Close conn}"
      by blast
    have n: "new_events w (snd (defineEntity type m w)) = Acquire conn # (evs1 @ [Close conn] @ evs2)"
      using w3 w2 by (simp add: new_events_def w1_def t0 conn_def)
    have s: "set (evs1 @ [Close conn] @ evs2) \<subseteq> {Use conn, Close conn}" using w2 w3 by auto
    have "left_open (evs1 @ [Close conn] @ evs2) [conn] = []"
      using left_open_uses [OF s, of "[conn]"] by simp
    moreover have "acquired (evs1 @ [Close conn] @ evs2) = []" using s by (rule acquired_uses)
    ultimately show ?thesis unfolding n by simp
  qed
qed


lemmas run_defs =
  bnd_def ret_def throw_def try_finally_def getConnection_def jdbc_def executeQuery_def
  executeUpdate_def close_def close_handle_def get_dialect_def getEntityConstructor_def
  getEntityMapping_def read_key_def push_inserted_def push_updated_def push_deleted_def
  set_key_id_def new_key_def id_toString_def with_connection_def

lemmas store_defs =
  insert_entity_def update_def remove_def generateId_def generateId_sql_def max_id_sql_def
  generateId_body_def query_def query_body_def loadEntity_def loadEntity_sql_def
  isEntityExisting_def isEntityExisting_sql_def insert_sql_def insert_columns_def
  insert_properties_def insert_skips_def update_sql_def column_or_name_def column_type_of_def
  hasIdSequence_def

lemmas demo_defs =
  demo_world_def table_engine_def demo_dialect_def person_mapping_def integer_type_def
  string_type_def ann_def row_id_def row_cells_def new_events_def

section \<open>Keys and transactions\<close>

lemma io_keepsD: "io_keeps m \<Longrightarrow> m w = (r, w') \<Longrightarrow> keys w' = keys w \<and> txns w' = txns w \<and> next_key w' = next_key w \<and> registry w' = registry w"
  unfolding io_keeps_def heap_of_def by (metis prod.inject snd_conv)

lemma io_keepsI:
  "(\<And>w. keys (snd (m w)) = keys w \<and> txns (snd (m w)) = txns w \<and> next_key (snd (m w)) = next_key w \<and> registry (snd (m w)) = registry w)
   \<Longrightarrow> io_keeps m"
  by (simp add: io_keeps_def heap_of_def)

lemma io_keeps_ret [simp]: "io_keeps (ret x)"
  by (simp add: io_keeps_def ret_def)

lemma io_keeps_throw [simp]: "io_keeps (throw e)"
  by (simp add: io_keeps_def throw_def)

lemma io_keeps_bnd:
  assumes "io_keeps m" and "\<And>x. io_keeps (f x)"
  shows "io_keeps (bnd m f)"
proof (rule io_keepsI)
  fix w :: "'a world"
  obtain r w1 where m: "m w = (r, w1)" by (cases "m w")
  note k1 = io_keepsD [OF assms(1) m]
  show "keys (snd (bnd m f w)) = keys w \<and> txns (snd (bnd m f w)) = txns w
        \<and> next_key (snd (bnd m f w)) = next_key w \<and> registry (snd (bnd m f w)) = registry w"
  proof (cases r)
    case (Inl e)
    then show ?thesis using m k1 by (simp add: bnd_def)
  next
    case (Inr x)
    obtain r2 w2 where f: "f x w1 = (r2, w2)" by (cases "f x w1")
    from io_keepsD [OF assms(2) f] k1 m f Inr show ?thesis by (simp add: bnd_def)
  qed
qed

lemma io_keeps_try_finally:
  assumes "io_keeps body" and "io_keeps fin"
  shows "io_keeps (try_finally body fin)"
proof (rule io_keepsI)
  fix w :: "'a world"
  obtain r w1 where m: "body w = (r, w1)" by (cases "body w")
  obtain r2 w2 where f: "fin w1 = (r2, w2)" by (cases "fin w1")
  have "snd (try_finally body fin w) = w2"
    using m f by (cases r2) (simp_all add: try_finally_def)
  then show "keys (snd (try_finally body fin w)) = keys w \<and> txns (snd (try_finally body fin w)) = txns w
      \<and> next_key (snd (try_finally body fin w)) = next_key w \<and> registry (snd (try_finally body fin w)) = registry w"
    using io_keepsD [OF assms(1) m] io_keepsD [OF assms(2) f] by simp
qed

lemma io_keeps_world:
  assumes "\<And>v. io_keeps (f v)"
  shows "io_keeps (\<lambda>w. f w w)"
  using assms by (simp add: io_keeps_def)

lemma io_keeps_case_option:
  assumes "io_keeps n" and "\<And>x. io_keeps (s x)"
  shows "io_keeps (case v of None \<Rightarrow> n | Some x \<Rightarrow> s x)"
  using assms by (cases v) simp_all

lemma io_keeps_case_list:
  assumes "io_keeps n" and "\<And>x xs. io_keeps (c x xs)"
  shows "io_keeps (case v of [] \<Rightarrow> n | x # xs \<Rightarrow> c x xs)"
  using assms by (cases v) simp_all

lemma io_keeps_case_prod:
  assumes "\<And>x y. io_keeps (f x y)"
  shows "io_keeps (case v of (x, y) \<Rightarrow> f x y)"
  using assms by (cases v) simp_all

lemma io_keeps_if:
  assumes "io_keeps m" and "io_keeps n"
  shows "io_keeps (if b then m else n)"
  using assms by simp

lemma io_keeps_jdbc [simp]: "io_keeps (jdbc c)"
  by (rule io_keepsI) (simp add: jdbc_def)

lemma io_keeps_getConnection [simp]: "io_keeps getConnection"
  by (rule io_keepsI) (simp add: getConnection_def)

lemma io_keeps_close [simp]: "io_keeps (close c)"
  by (rule io_keepsI) (simp add: close_def split: option.splits)

lemma io_keeps_close_handle [simp]: "io_keeps close_handle"
  by (simp add: close_handle_def)

lemma io_keeps_executeQuery [simp]: "io_keeps (executeQuery c sql)"
  unfolding executeQuery_def
  by (intro io_keeps_bnd io_keeps_jdbc io_keepsI) (simp split: prod.splits)

lemma io_keeps_executeUpdate [simp]: "io_keeps (executeUpdate c sql ps)"
  unfolding executeUpdate_def
  by (intro io_keeps_bnd io_keeps_jdbc io_keepsI) (simp split: prod.splits)

lemma io_keeps_read_key [simp]: "io_keeps (read_key k)"
  by (rule io_keepsI) (simp add: read_key_def)

lemma io_keeps_getEntityConstructor [simp]: "io_keeps (getEntityConstructor t)"
  by (rule io_keepsI) (simp add: getEntityConstructor_def split: option.splits)

lemma io_keeps_getEntityMapping [simp]: "io_keeps (getEntityMapping t)"
  unfolding getEntityMapping_def by (simp add: io_keeps_bnd)

lemma io_keeps_determineDialect [simp]: "io_keeps determineDialect"
  unfolding determineDialect_def
proof (intro io_keeps_bnd io_keeps_getConnection io_keeps_try_finally io_keeps_jdbc io_keeps_close)
  fix conn :: nat and u :: unit
  show "io_keeps (\<lambda>w. (case db_product (drv w) (db w) of (productName, majorVersion) \<Rightarrow>
               if productName = ''H2'' then ret (modules w ''./databases/h2'')
               else if productName = ''MySQL''
               then (if majorVersion = 5 then ret (modules w ''./databases/mysql5'')
                     else throw (JsError (''Unsupported MySQL version '' @ dec_int majorVersion)))
               else throw (JsError (''Unsupported database '' @ productName))) w)"
    by (rule io_keeps_world) (intro io_keeps_case_prod io_keeps_if io_keeps_ret io_keeps_throw)
qed

lemma io_keeps_get_dialect [simp]: "io_keeps get_dialect"
proof (rule io_keepsI)
  fix w :: "'a world"
  show "keys (snd (get_dialect w)) = keys w \<and> txns (snd (get_dialect w)) = txns w
      \<and> next_key (snd (get_dialect w)) = next_key w \<and> registry (snd (get_dialect w)) = registry w"
  proof (cases "dialect_cache w")
    case None
    obtain r w1 where d: "determineDialect w = (r, w1)" by (cases "determineDialect w")
    from io_keepsD [OF io_keeps_determineDialect d] d None show ?thesis
      by (cases r) (simp_all add: get_dialect_def bnd_def)
  next
    case (Some d)
    then show ?thesis by (simp add: get_dialect_def)
  qed
qed

lemma io_keeps_cursor_loop:
  assumes "\<And>r. io_keeps (body r)"
  shows "io_keeps (cursor_loop c body rs)"
  using assms by (induction rs) (simp_all add: io_keeps_bnd)

lemma io_keeps_bind_insert [simp]: "io_keeps (bind_insert c m e v cols idx)"
proof (induction cols arbitrary: idx)
  case Nil
  then show ?case by simp
next
  case (Cons col cols)
  obtain name dataType where col: "col = (name, dataType)" by (cases col)
  show ?case unfolding col bind_insert.simps
    by (cases dataType) (simp_all add: Cons io_keeps_bnd)
qed

lemma io_keeps_bind_update [simp]: "io_keeps (bind_update c e cols idx)"
proof (induction cols arbitrary: idx)
  case Nil
  then show ?case by simp
next
  case (Cons col cols)
  obtain name dataType where col: "col = (name, dataType)" by (cases col)
  show ?case unfolding col bind_update.simps
    by (cases dataType) (simp_all add: Cons io_keeps_bnd)
qed




lemma io_keeps_generateId_body [simp]: "io_keeps (generateId_body c sql off)"
  unfolding generateId_body_def
  by (intro io_keeps_bnd io_keeps_jdbc io_keeps_executeQuery io_keeps_case_list io_keeps_case_prod
      io_keeps_case_option io_keeps_throw io_keeps_get_dialect io_keeps_ret)

lemma io_keeps_generateId_sql [simp]: "io_keeps (generateId_sql m)"
  unfolding generateId_sql_def max_id_sql_def
  by (intro io_keeps_case_option io_keeps_bnd io_keeps_get_dialect io_keeps_if io_keeps_ret)

lemma io_keeps_generateId [simp]: "io_keeps (generateId type)"
  unfolding generateId_def
  by (intro io_keeps_bnd io_keeps_getEntityMapping io_keeps_generateId_sql io_keeps_case_prod
      io_keeps_getConnection io_keeps_try_finally io_keeps_generateId_body io_keeps_close
      io_keeps_close_handle)


lemma io_keeps_jdbc_n [simp]: "io_keeps (jdbc_n c n)"
  by (induction n) (simp_all add: io_keeps_bnd)

lemma io_keeps_getColumns [simp]: "io_keeps (getColumns c t s p)"
  unfolding getColumns_def
proof (intro io_keeps_try_finally io_keeps_bnd io_keeps_jdbc io_keeps_close_handle)
  fix u :: unit
  show "io_keeps (\<lambda>w. cursor_loop c
            (\<lambda>m. bnd (jdbc_n c 7) (\<lambda>u.
               ret \<lparr>ci_name = cm_name m, ci_type = cm_type m, ci_length = cm_size m,
                    ci_nullable = (cm_nullable m \<noteq> 0), ci_default = cm_default m,
                    ci_precision = cm_digits m, ci_scale = cm_radix m\<rparr>))
            (db_columns (drv w) (db w) (pattern_or_all s) (pattern_or_all t)
               (pattern_or_all p)) w)"
    by (rule io_keeps_world)
       (intro io_keeps_cursor_loop io_keeps_bnd io_keeps_jdbc_n io_keeps_ret)
qed

lemma io_keeps_getPrimaryKeys [simp]: "io_keeps (getPrimaryKeys c t s)"
  unfolding getPrimaryKeys_def
proof (intro io_keeps_try_finally io_keeps_bnd io_keeps_jdbc io_keeps_close_handle)
  fix u :: unit
  show "io_keeps (\<lambda>w. cursor_loop c
            (\<lambda>m. bnd (jdbc_n c 3) (\<lambda>u.
               ret \<lparr>pi_name = pk_column m, pi_sequenceNumber = pk_seq m,
                    pi_primaryKeyName = pk_name m\<rparr>))
            (db_pkeys (drv w) (db w) (if s = Some [] then None else s) t) w)"
    by (rule io_keeps_world)
       (intro io_keeps_cursor_loop io_keeps_bnd io_keeps_jdbc_n io_keeps_ret)
qed

lemma io_keeps_getTables [simp]: "io_keeps (getTables c)"
  unfolding getTables_def
proof (intro io_keeps_try_finally io_keeps_bnd io_keeps_jdbc io_keeps_close_handle io_keeps_close)
  fix u :: unit
  show "io_keeps (\<lambda>w. cursor_loop c
            (\<lambda>t. bnd (jdbc_n c 4) (\<lambda>u.
                  bnd (getColumns c (Some (tm_name t)) (tm_schema t) None) (\<lambda>cols.
                  bnd (getPrimaryKeys c (tm_name t) (tm_schema t)) (\<lambda>pks.
                  ret \<lparr>ti_name = tm_name t, ti_schema = tm_schema t, ti_catalog = tm_catalog t,
                       ti_type = tm_type t, ti_columns = cols, ti_primaryKeys = pks\<rparr>))))
            (db_tables (drv w) (db w)) w)"
    by (rule io_keeps_world)
       (intro io_keeps_cursor_loop io_keeps_bnd io_keeps_jdbc_n io_keeps_ret
          io_keeps_getColumns io_keeps_getPrimaryKeys)
qed

lemma io_keeps_tableExists [simp]: "io_keeps (tableExists c t)"
  unfolding tableExists_def by (simp add: io_keeps_bnd)

lemma io_keeps_createTable [simp]: "io_keeps (createTable c d t cols pk)"
  unfolding createTable_def
  by (cases "createTable_sql d t cols pk")
     (simp_all add: io_keeps_try_finally io_keeps_bnd)

lemma io_keeps_createSequence [simp]: "io_keeps (createSequence c d n)"
  unfolding createSequence_def by (simp add: io_keeps_try_finally io_keeps_bnd)

lemma io_keeps_store_createTable [simp]: "io_keeps (store_createTable c d m)"
  unfolding store_createTable_def by (simp split: sum.splits prod.splits)

section \<open>Commit of the heap\<close>

lemma io_commitsD:
  assumes "io_commits R m" and "m w = (r, w')"
  shows "(\<forall>e. r = Inl e \<longrightarrow> keys w' = keys w \<and> txns w' = txns w \<and> next_key w' = next_key w \<and> registry w' = registry w) \<and>
         (\<forall>x. r = Inr x \<longrightarrow> R (keys w, txns w, next_key w, registry w) (keys w', txns w', next_key w', registry w'))"
proof -
  have f: "fst (m w) = r" "snd (m w) = w'" using assms(2) by simp_all
  from assms(1) have "case fst (m w) of
            Inl e \<Rightarrow> heap_of (snd (m w)) = heap_of w
          | Inr x \<Rightarrow> R (heap_of w) (heap_of (snd (m w)))"
    unfolding io_commits_def by blast
  then show ?thesis unfolding f by (cases r) (simp_all add: heap_of_def)
qed

lemma io_commitsI:
  assumes "\<And>w e. fst (m w) = Inl e \<Longrightarrow>
             keys (snd (m w)) = keys w \<and> txns (snd (m w)) = txns w \<and> next_key (snd (m w)) = next_key w \<and> registry (snd (m w)) = registry w"
    and "\<And>w x. fst (m w) = Inr x \<Longrightarrow>
             R (keys w, txns w, next_key w, registry w) (keys (snd (m w)), txns (snd (m w)), next_key (snd (m w)), registry (snd (m w)))"
  shows "io_commits R m"
  unfolding io_commits_def heap_of_def using assms by (auto split: sum.splits)

lemma io_commits_pre:
  assumes "io_keeps m" and "\<And>x. io_commits R (f x)"
  shows "io_commits R (bnd m f)"
proof (rule io_commitsI)
  fix w :: "'a world" and e
  assume a: "fst (bnd m f w) = Inl e"
  obtain r w1 where m: "m w = (r, w1)" by (cases "m w")
  note k1 = io_keepsD [OF assms(1) m]
  show "keys (snd (bnd m f w)) = keys w \<and> txns (snd (bnd m f w)) = txns w
        \<and> next_key (snd (bnd m f w)) = next_key w \<and> registry (snd (bnd m f w)) = registry w"
  proof (cases r)
    case (Inl e')
    then show ?thesis using m k1 by (simp add: bnd_def)
  next
    case (Inr x)
    obtain r2 w2 where f: "f x w1 = (r2, w2)" by (cases "f x w1")
    have "r2 = Inl e" using a m f Inr by (simp add: bnd_def)
    with io_commitsD [OF assms(2) f] k1 m f Inr show ?thesis by (simp add: bnd_def)
  qed
next
  fix w :: "'a world" and y
  assume a: "fst (bnd m f w) = Inr y"
  obtain r w1 where m: "m w = (r, w1)" by (cases "m w")
  note k1 = io_keepsD [OF assms(1) m]
  show "R (keys w, txns w, next_key w, registry w)
          (keys (snd (bnd m f w)), txns (snd (bnd m f w)), next_key (snd (bnd m f w)), registry (snd (bnd m f w)))"
  proof (cases r)
    case (Inl e')
    then show ?thesis using m a by (simp add: bnd_def)
  next
    case (Inr x)
    obtain r2 w2 where f: "f x w1 = (r2, w2)" by (cases "f x w1")
    have "r2 = Inr y" using a m f Inr by (simp add: bnd_def)
    with io_commitsD [OF assms(2) f] k1 m f Inr show ?thesis by (simp add: bnd_def)
  qed
qed

lemma io_commits_try_finally:
  assumes "io_commits R body" and "\<And>w. \<exists>w'. fin w = (Inr (), w') \<and> keys w' = keys w \<and> txns w' = txns w
                     \<and> next_key w' = next_key w \<and> registry w' = registry w"
  shows "io_commits R (try_finally body fin)"
proof -
  have s: "fst (try_finally body fin w) = fst (body w) \<and>
           keys (snd (try_finally body fin w)) = keys (snd (body w)) \<and>
           txns (snd (try_finally body fin w)) = txns (snd (body w)) \<and>
           next_key (snd (try_finally body fin w)) = next_key (snd (body w)) \<and> registry (snd (try_finally body fin w)) = registry (snd (body w))" for w :: "'a world"
  proof -
    obtain r w1 where m: "body w = (r, w1)" by (cases "body w")
    from assms(2) [of w1] obtain w2 where "fin w1 = (Inr (), w2)" "keys w2 = keys w1" "txns w2 = txns w1"
      "next_key w2 = next_key w1" "registry w2 = registry w1"
      by blast
    then show ?thesis using m by (simp add: try_finally_def)
  qed
  show ?thesis
  proof (rule io_commitsI)
    fix w :: "'a world" and e
    assume "fst (try_finally body fin w) = Inl e"
    then have "fst (body w) = Inl e" using s by simp
    then have "body w = (Inl e, snd (body w))" by (metis prod.collapse)
    from io_commitsD [OF assms(1) this] s
    show "keys (snd (try_finally body fin w)) = keys w \<and> txns (snd (try_finally body fin w)) = txns w
        \<and> next_key (snd (try_finally body fin w)) = next_key w \<and> registry (snd (try_finally body fin w)) = registry w"
      by simp
  next
    fix w :: "'a world" and x
    assume "fst (try_finally body fin w) = Inr x"
    then have "fst (body w) = Inr x" using s by simp
    then have "body w = (Inr x, snd (body w))" by (metis prod.collapse)
    from io_commitsD [OF assms(1) this] s
    show "R (keys w, txns w, next_key w, registry w)
            (keys (snd (try_finally body fin w)), txns (snd (try_finally body fin w)),
             next_key (snd (try_finally body fin w)), registry (snd (try_finally body fin w)))"
      by simp
  qed
qed

lemma io_commits_with_connection:
  assumes "\<And>c. io_commits R (body c)"
  shows "io_commits R (with_connection t body)"
proof (cases t)
  case None
  have "with_connection None body =
      bnd getConnection (\<lambda>conn. try_finally (bnd (jdbc conn) (\<lambda>u. body conn))
                 (bnd close_handle (\<lambda>u. close (Some conn))))"
    by (rule ext)
       (simp add: with_connection_def try_finally_def throw_def bnd_def close_handle_def ret_def close_def
        split: prod.splits sum.splits)
  moreover have "io_commits R (bnd getConnection (\<lambda>conn. try_finally (bnd (jdbc conn) (\<lambda>u. body conn))
                 (bnd close_handle (\<lambda>u. close (Some conn)))))"
    by (intro io_commits_pre io_keeps_getConnection io_commits_try_finally io_keeps_jdbc assms)
       (simp add: bnd_def close_handle_def ret_def close_def)
  ultimately show ?thesis using None by simp
next
  case (Some tr)
  have "io_commits R (\<lambda>w. try_finally
            (bnd (jdbc (tconn (txns w tr))) (\<lambda>u.
             bnd (jdbc (tconn (txns w tr))) (\<lambda>u.
             body (tconn (txns w tr)))))
            close_handle w)"
  proof -
    have "io_commits R (try_finally (bnd (jdbc c) (\<lambda>u. bnd (jdbc c) (\<lambda>u. body c))) close_handle)" for c
      by (intro io_commits_pre io_commits_try_finally io_keeps_jdbc assms)
         (simp add: close_handle_def ret_def)
    then show ?thesis unfolding io_commits_def by simp
  qed
  then show ?thesis using Some by (simp add: with_connection_def [abs_def])
qed

lemma update_commits:
  "io_commits (\<lambda>(ks, tx, nk, rg) (ks', tx', nk', rg'). ks' = ks \<and> tx' = pushed_updated t (ekey e) tx \<and> nk' = nk) (update e t)"
  unfolding update_def
  by (intro io_commits_pre io_commits_with_connection io_keeps_read_key io_keeps_getEntityMapping
        io_keeps_get_dialect io_keeps_jdbc io_keeps_bind_update io_keeps_executeUpdate io_commitsI)
     (simp_all add: bnd_def push_updated_def ret_def pushed_updated_def split: option.splits)

lemma remove_commits:
  "io_commits (\<lambda>(ks, tx, nk, rg) (ks', tx', nk', rg'). ks' = ks \<and> tx' = pushed_deleted t k tx \<and> nk' = nk) (remove k t)"
  unfolding remove_def
proof (intro io_commits_pre io_commits_with_connection io_keeps_read_key io_keeps_getEntityMapping
        io_keeps_get_dialect io_keeps_jdbc)
  fix key :: key and m :: mapping and d :: dialect and c :: nat
  show "io_commits (\<lambda>(ks, tx, nk, rg) (ks', tx', nk', rg'). ks' = ks \<and> tx' = pushed_deleted t k tx \<and> nk' = nk)
          (case getColumnType d ''integer'' of
             None \<Rightarrow> throw TypeError
           | Some dataType \<Rightarrow>
               bnd (jdbc c) (\<lambda>u.
               bnd (read_key k) (\<lambda>key1.
               bnd (executeUpdate c
                      (''DELETE FROM '' @ quote d (tableName m) @ '' WHERE ''
                       @ quote d (idColumnName m) @ '' = ?'')
                      [(1, kid key1)]) (\<lambda>result.
               bnd (push_deleted t k) (\<lambda>u.
               ret result)))))"
  proof (cases "getColumnType d ''integer''")
    case None
    then show ?thesis by (simp add: io_commits_def throw_def)
  next
    case (Some dataType)
    show ?thesis unfolding Some option.case
      by (intro io_commits_pre io_keeps_jdbc io_keeps_read_key io_keeps_executeUpdate io_commitsI)
         (simp_all add: bnd_def push_deleted_def ret_def pushed_deleted_def split: option.splits)
  qed
qed

lemma insert_tail_commits:
  "io_commits (\<lambda>(ks, tx, nk, rg) (ks', tx', nk', rg').
       ks' = ks(ekey e := (ks (ekey e))\<lparr>kid := nextId\<rparr>) \<and> tx' = pushed_inserted t (ekey e) tx
       \<and> nk' = nk)
     (with_connection t (\<lambda>conn.
       bnd (jdbc conn) (\<lambda>u.
       bnd (jdbc conn) (\<lambda>u.
       bnd (bind_insert conn m e nextId (insert_columns d e m) 0) (\<lambda>params.
       bnd (executeUpdate conn (insert_sql d e m) params) (\<lambda>result.
       bnd (push_inserted t (ekey e)) (\<lambda>u.
       bnd (set_key_id (ekey e) nextId) (\<lambda>u.
       ret result))))))))"
  by (intro io_commits_pre io_commits_with_connection io_keeps_jdbc io_keeps_bind_insert
        io_keeps_executeUpdate io_commitsI)
     (simp_all add: bnd_def push_inserted_def set_key_id_def ret_def pushed_inserted_def
        split: option.splits)

lemma io_commits_weaken:
  assumes "io_commits R m" and "\<And>h h'. R h h' \<Longrightarrow> S h h'"
  shows "io_commits S m"
  unfolding io_commits_def
proof
  fix w :: "'a world"
  from assms(1) have "case fst (m w) of
            Inl e \<Rightarrow> heap_of (snd (m w)) = heap_of w
          | Inr x \<Rightarrow> R (heap_of w) (heap_of (snd (m w)))"
    unfolding io_commits_def by blast
  then show "case fst (m w) of
            Inl e \<Rightarrow> heap_of (snd (m w)) = heap_of w
          | Inr x \<Rightarrow> S (heap_of w) (heap_of (snd (m w)))"
    by (cases "fst (m w)") (simp_all add: assms(2))
qed

lemma insert_commits:
  "io_commits (\<lambda>(ks, tx, nk, rg) (ks', tx', nk', rg').
       (\<exists>v. ks' = ks(ekey e := (ks (ekey e))\<lparr>kid := v\<rparr>)) \<and> tx' = pushed_inserted t (ekey e) tx
       \<and> nk' = nk)
     (insert_entity e t)"
  unfolding insert_entity_def
  by (intro io_commits_pre io_keeps_read_key io_keeps_getEntityMapping io_keeps_get_dialect
        io_keeps_generateId io_commits_weaken [OF insert_tail_commits]) auto

section \<open>The operations once the dialect is determined\<close>

lemma bnd_ret_left: "bnd (ret x) f = f x"
  by (rule ext) (simp add: bnd_def ret_def)

lemma bnd_assoc: "bnd (bnd m f) g = bnd m (\<lambda>x. bnd (f x) g)"
  by (rule ext) (simp add: bnd_def split: prod.splits sum.splits)

lemma for_each_append: "for_each f (xs @ ys) = bnd (for_each f xs) (\<lambda>u. for_each f ys)"
  by (induction xs) (simp_all add: bnd_ret_left bnd_assoc)

lemma bnd_read_key: "bnd (read_key k) f w = f (keys w k) w"
  by (simp add: bnd_def read_key_def)

lemma bnd_getEntityMapping:
  "bnd (getEntityMapping type) f w =
     (case registry w type of
        None \<Rightarrow> (Inl (JsError (''Entity '' @ [CHR 0x27] @ type @ [CHR 0x27] @ '' is not defined'')), w)
      | Some c \<Rightarrow> f (cmapping c) w)"
  by (simp add: bnd_def getEntityMapping_def getEntityConstructor_def ret_def split: option.splits)

lemma bnd_get_dialect: "dialect_cache w = Some d \<Longrightarrow> bnd get_dialect f w = f d w"
  by (simp add: bnd_def get_dialect_def)

lemma bnd_Inr:
  assumes "bnd m f w = (Inr y, w')"
  obtains x w1 where "m w = (Inr x, w1)" and "f x w1 = (Inr y, w')"
  using assms by (auto simp: bnd_def split: prod.splits sum.splits)

lemma unregistered_throws:
  assumes "registry w (ktype (keys w (ekey e))) = None"
  shows "insert_entity e t w =
           (Inl (JsError (''Entity '' @ [CHR 0x27] @ ktype (keys w (ekey e)) @ [CHR 0x27] @ '' is not defined'')), w)"
    and "update e t w =
           (Inl (JsError (''Entity '' @ [CHR 0x27] @ ktype (keys w (ekey e)) @ [CHR 0x27] @ '' is not defined'')), w)"
  using assms by (simp_all add: insert_entity_def update_def bnd_read_key bnd_getEntityMapping)

lemma insert_entity_unfold:
  assumes "dialect_cache w = Some d" and "registry w (ktype (keys w (ekey e))) = Some c"
  shows "insert_entity e t w =
     bnd (generateId (ktype (keys w (ekey e)))) (\<lambda>nextId.
     with_connection t (\<lambda>conn.
       bnd (jdbc conn) (\<lambda>u.
       bnd (jdbc conn) (\<lambda>u.
       bnd (bind_insert conn (cmapping c) e nextId (insert_columns d e (cmapping c)) 0) (\<lambda>params.
       bnd (executeUpdate conn (insert_sql d e (cmapping c)) params) (\<lambda>result.
       bnd (push_inserted t (ekey e)) (\<lambda>u.
       bnd (set_key_id (ekey e) nextId) (\<lambda>u.
       ret result)))))))) w"
  using assms by (simp add: insert_entity_def bnd_read_key bnd_getEntityMapping bnd_get_dialect)

lemma update_unfold:
  assumes "dialect_cache w = Some d" and "registry w (ktype (keys w (ekey e))) = Some c"
  shows "update e t w =
     with_connection t (\<lambda>conn.
       bnd (jdbc conn) (\<lambda>u.
       bnd (jdbc conn) (\<lambda>u.
       bnd (bind_update conn e
              (map (\<lambda>(propName, p). (propName, column_type_of d (p_type p))) (properties (cmapping c))) 0)
           (\<lambda>params.
       bnd (executeUpdate conn (update_sql d (cmapping c) (kid (keys w (ekey e)))) params) (\<lambda>result.
       bnd (push_updated t (ekey e)) (\<lambda>u.
       ret result)))))) w"
  using assms by (simp add: update_def bnd_read_key bnd_getEntityMapping bnd_get_dialect)

lemma remove_unfold:
  assumes "dialect_cache w = Some d" and "registry w (ktype (keys w k)) = Some c"
  shows "remove k t w =
     with_connection t (\<lambda>conn.
       bnd (jdbc conn) (\<lambda>u.
       bnd (jdbc conn) (\<lambda>u.
       (case getColumnType d ''integer'' of
          None \<Rightarrow> throw TypeError
        | Some dataType \<Rightarrow>
            bnd (jdbc conn) (\<lambda>u.
            bnd (read_key k) (\<lambda>key1.
            bnd (executeUpdate conn
                   (''DELETE FROM '' @ quote d (tableName (cmapping c)) @ '' WHERE ''
                    @ quote d (idColumnName (cmapping c)) @ '' = ?'')
                   [(1, kid key1)]) (\<lambda>result.
            bnd (push_deleted t k) (\<lambda>u.
            ret result)))))))) w"
  using assms by (simp add: remove_def bnd_read_key bnd_getEntityMapping bnd_get_dialect)

lemma remove_unregistered:
  assumes "registry w (ktype (keys w k)) = None"
  shows "remove k t w =
           (Inl (JsError (''Entity '' @ [CHR 0x27] @ ktype (keys w k) @ [CHR 0x27] @ '' is not defined'')), w)"
  using assms by (simp add: remove_def bnd_read_key bnd_getEntityMapping)

text \<open>With a transaction, the block around the statement calls the driver on its connection only.\<close>

lemma with_connection_txn:
  assumes body: "\<And>c. io_adds {Use c} (body c)" and c: "dialect_cache w \<noteq> None"
  shows "\<exists>evs. trace (snd (with_connection (Some t) body w)) = trace w @ Use (tconn (txns w t)) # evs
               \<and> set evs \<subseteq> {Use (tconn (txns w t))}"
proof -
  define tc where "tc = tconn (txns w t)"
  have w: "with_connection (Some t) body w =
      try_finally (bnd (jdbc tc) (\<lambda>u. bnd (jdbc tc) (\<lambda>u. body tc))) close_handle w"
    by (simp add: with_connection_def tc_def)
  define w1 where "w1 = w\<lparr>tick := Suc (tick w), trace := trace w @ [Use tc]\<rparr>"
  have c1: "dialect_cache w1 \<noteq> None" using c by (simp add: w1_def)
  show ?thesis
  proof (cases "fails (drv w) (tick w)")
    case True
    then have "snd (with_connection (Some t) body w) = w1"
      unfolding w by (simp add: try_finally_def bnd_def jdbc_def close_handle_def ret_def w1_def)
    then have "trace (snd (with_connection (Some t) body w)) = trace w @ Use tc # [] \<and> set [] \<subseteq> {Use tc}"
      by (simp add: w1_def)
    then show ?thesis unfolding tc_def by blast
  next
    case False
    have a: "io_adds {Use tc} (bnd (jdbc tc) (\<lambda>u. body tc))"
      by (intro io_adds_bnd io_adds_jdbc body) simp
    obtain r w2 where k: "bnd (jdbc tc) (\<lambda>u. body tc) w1 = (r, w2)"
      by (cases "bnd (jdbc tc) (\<lambda>u. body tc) w1")
    from io_addsD [OF a c1 k] obtain evs where
      e: "trace w2 = trace w1 @ evs" "set evs \<subseteq> {Use tc}" by blast
    have "snd (with_connection (Some t) body w) = w2"
      unfolding w using False k
      by (simp add: try_finally_def bnd_def [of "jdbc tc"] jdbc_def close_handle_def ret_def w1_def)
    then have "trace (snd (with_connection (Some t) body w)) = trace w @ Use tc # evs \<and> set evs \<subseteq> {Use tc}"
      using e by (simp add: w1_def)
    then show ?thesis unfolding tc_def by blast
  qed
qed

lemma update_txn_events:
  assumes c: "dialect_cache w \<noteq> None" and ok: "fst (update e (Some t) w) = Inr r"
  shows "Use (tconn (txns w t)) \<in> set (new_events w (snd (update e (Some t) w))) \<and>
         set (new_events w (snd (update e (Some t) w))) \<subseteq> {Use (tconn (txns w t))}"
proof -
  from c obtain d where d: "dialect_cache w = Some d" by blast
  from ok obtain ct where r: "registry w (ktype (keys w (ekey e))) = Some ct"
    by (cases "registry w (ktype (keys w (ekey e)))") (simp_all add: unregistered_throws)
  have "\<exists>evs. trace (snd (update e (Some t) w)) = trace w @ Use (tconn (txns w t)) # evs
               \<and> set evs \<subseteq> {Use (tconn (txns w t))}"
    unfolding update_unfold [OF d r]
    by (rule with_connection_txn [OF _ c])
       (intro io_adds_bnd io_adds_jdbc io_adds_bind_update io_adds_executeUpdate io_adds_push_updated
          io_adds_ret, simp_all)
  then obtain evs where "trace (snd (update e (Some t) w)) = trace w @ Use (tconn (txns w t)) # evs"
    "set evs \<subseteq> {Use (tconn (txns w t))}" by blast
  then show ?thesis by (simp add: new_events_def)
qed

lemma remove_txn_events:
  assumes c: "dialect_cache w \<noteq> None" and ok: "fst (remove k (Some t) w) = Inr r"
  shows "Use (tconn (txns w t)) \<in> set (new_events w (snd (remove k (Some t) w))) \<and>
         set (new_events w (snd (remove k (Some t) w))) \<subseteq> {Use (tconn (txns w t))}"
proof -
  from c obtain d where d: "dialect_cache w = Some d" by blast
  from ok obtain ct where r: "registry w (ktype (keys w k)) = Some ct"
    by (cases "registry w (ktype (keys w k))") (simp_all add: remove_unregistered)
  have "\<exists>evs. trace (snd (remove k (Some t) w)) = trace w @ Use (tconn (txns w t)) # evs
               \<and> set evs \<subseteq> {Use (tconn (txns w t))}"
    unfolding remove_unfold [OF d r]
    by (rule with_connection_txn [OF _ c])
       (intro io_adds_bnd io_adds_jdbc io_adds_case_option io_adds_throw io_adds_read_key
          io_adds_executeUpdate io_adds_push_deleted io_adds_ret, simp_all)
  then obtain evs where "trace (snd (remove k (Some t) w)) = trace w @ Use (tconn (txns w t)) # evs"
    "set evs \<subseteq> {Use (tconn (txns w t))}" by blast
  then show ?thesis by (simp add: new_events_def)
qed

lemma insert_txn_events:
  assumes c: "dialect_cache w \<noteq> None" and ok: "fst (insert_entity e (Some t) w) = Inr r"
    and old: "tconn (txns w t) < next_conn w"
  shows "Use (tconn (txns w t)) \<in> set (new_events w (snd (insert_entity e (Some t) w))) \<and>
         Close (tconn (txns w t)) \<notin> set (new_events w (snd (insert_entity e (Some t) w)))"
proof -
  from c obtain d where d: "dialect_cache w = Some d" by blast
  from ok obtain ct where r: "registry w (ktype (keys w (ekey e))) = Some ct"
    by (cases "registry w (ktype (keys w (ekey e)))") (simp_all add: unregistered_throws)
  define body where "body = (\<lambda>nextId conn.
       bnd (jdbc conn) (\<lambda>u.
       bnd (jdbc conn) (\<lambda>u.
       bnd (bind_insert conn (cmapping ct) e nextId (insert_columns d e (cmapping ct)) 0) (\<lambda>params.
       bnd (executeUpdate conn (insert_sql d e (cmapping ct)) params) (\<lambda>result.
       bnd (push_inserted (Some t) (ekey e)) (\<lambda>u.
       bnd (set_key_id (ekey e) nextId) (\<lambda>u.
       ret result)))))) :: ('a, int) io)"
  have u: "insert_entity e (Some t) w =
     bnd (generateId (ktype (keys w (ekey e)))) (\<lambda>nextId. with_connection (Some t) (body nextId)) w"
    unfolding insert_entity_unfold [OF d r] body_def ..
  have b: "io_adds {Use conn} (body nextId conn)" for nextId conn
    unfolding body_def
    by (intro io_adds_bnd io_adds_jdbc io_adds_bind_insert io_adds_executeUpdate io_adds_push_inserted
          io_adds_set_key_id io_adds_ret) simp_all
  obtain w' where w': "insert_entity e (Some t) w = (Inr r, w')"
    using ok by (metis prod.collapse)
  from w' [unfolded u] obtain v w1 where
    g: "generateId (ktype (keys w (ekey e))) w = (Inr v, w1)" and
    k: "with_connection (Some t) (body v) w1 = (Inr r, w')"
    by (rule bnd_Inr)
  from io_scopedD [OF io_scoped_generateId c g] obtain evs1 where
    w1: "dialect_cache w1 = dialect_cache w" "trace w1 = trace w @ evs1"
        "\<forall>e \<in> set evs1. next_conn w \<le> conn_of e"
    by blast
  have t1: "txns w1 = txns w" using io_keepsD [OF io_keeps_generateId g] by simp
  have c1: "dialect_cache w1 \<noteq> None" using c w1 by simp
  from with_connection_txn [of "body v", OF b c1, of t] k t1 obtain evs2 where
    w2: "trace w' = trace w1 @ Use (tconn (txns w t)) # evs2" "set evs2 \<subseteq> {Use (tconn (txns w t))}"
    by auto
  have n: "new_events w (snd (insert_entity e (Some t) w)) = evs1 @ Use (tconn (txns w t)) # evs2"
    using w' w1 w2 by (simp add: new_events_def)
  have "Close (tconn (txns w t)) \<notin> set evs1"
  proof
    assume "Close (tconn (txns w t)) \<in> set evs1"
    with w1(3) have "next_conn w \<le> conn_of (Close (tconn (txns w t)))" by blast
    with old show False by simp
  qed
  moreover have "Close (tconn (txns w t)) \<notin> set evs2" using w2(2) by auto
  ultimately show ?thesis unfolding n by simp
qed

section \<open>Exceptions of the driver\<close>


































section \<open>Connections of calls without a transaction\<close>

text \<open>
  C1. Once the dialect of the store is determined, a call of \<open>query\<close>, \<open>generateId\<close>,
  \<open>update\<close>, \<open>remove\<close>, \<open>loadEntity\<close> or \<open>isEntityExisting\<close> without a transaction makes at
  most one scoped use of a connection: it acquires a connection of the pool, calls the
  driver on that connection only, and closes it last, on the success path and on every
  error path; it acquires none when it throws before it reaches the pool or when the pool
  throws, and exactly one when it returns normally. \<open>insert\<close> makes at most two scoped
  uses, one after the other (the one of \<open>generateId\<close>, then its own), and exactly two
  when it returns normally. \<open>defineEntity\<close> acquires at most one connection, and every
  connection it acquires is closed when it returns.
\<close>

theorem scoped_acquisition:
  assumes "dialect_cache w \<noteq> None"
  shows "(scoped_from None 1 (new_events w (snd (query sql w))) \<and>
          (\<forall>x. fst (query sql w) = Inr x \<longrightarrow> length (acquired (new_events w (snd (query sql w)))) = 1)) \<and>
         (scoped_from None 1 (new_events w (snd (generateId type w))) \<and>
          (\<forall>x. fst (generateId type w) = Inr x
               \<longrightarrow> length (acquired (new_events w (snd (generateId type w)))) = 1)) \<and>
         (scoped_from None 1 (new_events w (snd (update e None w))) \<and>
          (\<forall>x. fst (update e None w) = Inr x
               \<longrightarrow> length (acquired (new_events w (snd (update e None w)))) = 1)) \<and>
         (scoped_from None 1 (new_events w (snd (remove k None w))) \<and>
          (\<forall>x. fst (remove k None w) = Inr x
               \<longrightarrow> length (acquired (new_events w (snd (remove k None w)))) = 1)) \<and>
         (scoped_from None 1 (new_events w (snd (loadEntity type idv w))) \<and>
          (\<forall>x. fst (loadEntity type idv w) = Inr x
               \<longrightarrow> length (acquired (new_events w (snd (loadEntity type idv w)))) = 1)) \<and>
         (scoped_from None 1 (new_events w (snd (isEntityExisting type idv w))) \<and>
          (\<forall>x. fst (isEntityExisting type idv w) = Inr x
               \<longrightarrow> length (acquired (new_events w (snd (isEntityExisting type idv w)))) = 1)) \<and>
         (scoped_from None 2 (new_events w (snd (insert_entity e None w))) \<and>
          (\<forall>x. fst (insert_entity e None w) = Inr x
               \<longrightarrow> length (acquired (new_events w (snd (insert_entity e None w)))) = 2)) \<and>
         (left_open (new_events w (snd (defineEntity type m w))) [] = [] \<and>
          length (acquired (new_events w (snd (defineEntity type m w)))) \<le> 1)"
  by (intro conjI io_scoped_events [OF io_scoped_query assms]
        io_scoped_events [OF io_scoped_generateId assms]
        io_scoped_events [OF io_scoped_update assms]
        io_scoped_events [OF io_scoped_remove assms]
        io_scoped_events [OF io_scoped_loadEntity assms]
        io_scoped_events [OF io_scoped_isEntityExisting assms]
        io_scoped_events [OF io_scoped_insert assms]
        defineEntity_events [OF assms])

theorem scoped_acquisition_witness:
  "dialect_cache (demo_world (\<lambda>n. n = 3) []) \<noteq> None \<and>
   fst (remove 1 None (demo_world (\<lambda>n. n = 3) [])) = Inl SqlException \<and>
   new_events (demo_world (\<lambda>n. n = 3) []) (snd (remove 1 None (demo_world (\<lambda>n. n = 3) [])))
     = [Acquire 1, Use 1, Use 1, Use 1, Close 1] \<and>
   scoped_from None 1
     (new_events (demo_world (\<lambda>n. n = 3) []) (snd (remove 1 None (demo_world (\<lambda>n. n = 3) []))))"
  using scoped_acquisition [of "demo_world (\<lambda>n. n = 3) []" "''x''" "''Person''" "ann 1" 1 "Num 1" "person_mapping"]
  by (simp add: run_defs store_defs demo_defs)

text \<open>
  As stated, with exactly one connection for every operation, C1 fails for \<open>insert\<close>: a
  successful insert acquires connection 1 (in \<open>generateId\<close>) and then connection 2. It
  fails for \<open>defineEntity\<close> too, which acquires no connection for a registered type.
\<close>

theorem insert_acquires_twice:
  "dialect_cache (demo_world (\<lambda>n. False) []) \<noteq> None \<and>
   fst (insert_entity (ann 0) None (demo_world (\<lambda>n. False) [])) = Inr 1 \<and>
   acquired (new_events (demo_world (\<lambda>n. False) [])
      (snd (insert_entity (ann 0) None (demo_world (\<lambda>n. False) [])))) = [1, 2] \<and>
   \<not> scoped_from None 1 (new_events (demo_world (\<lambda>n. False) [])
      (snd (insert_entity (ann 0) None (demo_world (\<lambda>n. False) [])))) \<and>
   fst (defineEntity ''Person'' person_mapping (demo_world (\<lambda>n. False) []))
     = Inr \<lparr>ctype = ''Person'', cmapping = person_mapping\<rparr> \<and>
   new_events (demo_world (\<lambda>n. False) [])
      (snd (defineEntity ''Person'' person_mapping (demo_world (\<lambda>n. False) []))) = []"
  by (simp add: run_defs store_defs demo_defs defineEntity_def)


text \<open>
  What the statement about \<open>defineEntity\<close> above leaves open: when the table is missing,
  \<open>defineEntity\<close> hands \<open>createTable\<close> the connection that \<open>tableExists\<close> has closed (the
  comment of \<open>getTables\<close> says that it does not close it), so the connection is used after
  its close, and closed again.
\<close>

lemma defineEntity_uses_closed_connection:
  "new_events (demo_world (\<lambda>n. False) [])
     (snd (defineEntity ''Pet'' (person_mapping\<lparr>tableName := ''pet''\<rparr>) (demo_world (\<lambda>n. False) [])))
   = [Acquire 1, Use 1, Use 1, Use 1, Use 1, Use 1, Use 1, Use 1,
      Use 1, Use 1, Use 1, Use 1, Use 1, Close 1, Use 1, Use 1, Use 1, Close 1]"
  by (simp add: run_defs demo_defs defineEntity_def tableExists_def getTables_def getColumns_def
      getPrimaryKeys_def pattern_or_all_def store_createTable_def createTable_def
      createTable_sql_def column_clause_def column_type_of_def primary_key_clause_def
      column_or_name_def numeral_eq_Suc Let_def)

section \<open>generateId\<close>





lemma max_id_cases: "max_id rows = Null \<or> (\<exists>i. max_id rows = Num i)"
  by (induction rows) (auto split: jsval.splits)








section \<open>The columns of an insert\<close>

text \<open>
  C3. The \<open>INSERT\<close> lists the id column and every mapped property, leaving a property out
  only when the entity holds no value for it and the mapping declares a default, and binds
  the value of the entity for every property it lists. This fails for a property that is
  stored in a column of another name: the test that leaves a property out reads the
  entity under the column name, the binding reads it under the property name. The entity
  holds \<open>Ann\<close> for \<open>firstName\<close>, and the insert leaves the property out: the statement lists
  the id column only, and the row that reaches the database has the id and nothing else.
\<close>

theorem insert_omits_property_with_value:
  "eprops ann_named ''firstName'' = Str ''Ann'' \<and>
   insert_properties ann_named named_mapping = [] \<and>
   insert_sql demo_dialect ann_named named_mapping
     = ''INSERT INTO '' @ quote demo_dialect ''person'' @ '' ('' @ quote demo_dialect ''id''
       @ '') VALUES (?)'' \<and>
   fst (insert_entity ann_named None named_world) = Inr 1 \<and>
   db (snd (insert_entity ann_named None named_world)) = [[(1, Num 1)]]"
  by (simp add: run_defs store_defs demo_defs named_world_def named_mapping_def ann_named_def)

section \<open>loadEntity\<close>







section \<open>Who writes to a Key\<close>






lemma updateEntity_result:
  "updateEntity ssave skey props e w = (Inr b, e1, w1) \<Longrightarrow> b \<and> ekey e1 = ekey e"
proof (induction props arbitrary: e w)
  case Nil
  then show ?case by simp
next
  case (Cons p props)
  obtain name v where p: "p = (name, v)" by (cases p)
  obtain r w' where rv: "resolve_value ssave skey v w = (r, w')"
    by (cases "resolve_value ssave skey v w")
  show ?case
  proof (cases r)
    case (Inl err)
    then show ?thesis using Cons.prems p rv by simp
  next
    case (Inr v')
    then have "updateEntity ssave skey props (e\<lparr>eprops := (eprops e)(name := v')\<rparr>) w' = (Inr b, e1, w1)"
      using Cons.prems p rv by simp
    from Cons.IH [OF this] show ?thesis by simp
  qed
qed

lemma save_dispatch:
  assumes "updateEntity ssave skey props e w = (Inr b, e1, w1)"
  shows "save ssave skey props e t w =
           (if isPersistent (keys w1 (ekey e))
            then (case update e1 t w1 of
                    (Inl err, w2) \<Rightarrow> (Inl err, e1, w2) | (Inr n, w2) \<Rightarrow> (Inr (Some n), e1, w2))
            else (case insert_entity e1 t w1 of
                    (Inl err, w2) \<Rightarrow> (Inl err, e1, w2) | (Inr n, w2) \<Rightarrow> (Inr (Some n), e1, w2)))"
  using assms updateEntity_result [OF assms] by (simp add: save_def)






section \<open>Registration\<close>

lemma defineEntity_registers:
  "\<exists>c. registry (snd (defineEntity type m w)) type = Some c \<and>
       (\<forall>c'. fst (defineEntity type m w) = Inr c' \<longrightarrow> c' = c)"
proof (cases "registry w type")
  case (Some c)
  then show ?thesis by (simp add: defineEntity_def)
next
  case None
  define c where "c = \<lparr>ctype = type, cmapping = m\<rparr>"
  define w0 where "w0 = w\<lparr>registry := (registry w)(type \<mapsto> c)\<rparr>"
  define rest :: "('a, ctor) io" where "rest =
           bnd getConnection (\<lambda>conn.
           bnd (tableExists conn (tableName m)) (\<lambda>found.
             if \<not> found then
               bnd get_dialect (\<lambda>d.
               bnd (store_createTable conn d m) (\<lambda>n.
                 (case idSequenceName m of
                    None \<Rightarrow> ret c
                  | Some sequenceName \<Rightarrow>
                      bnd get_dialect (\<lambda>d1.
                        if hasSequenceSupport d1
                        then bnd get_dialect (\<lambda>d2.
                             bnd (createSequence conn d2 sequenceName) (\<lambda>n. ret c))
                        else ret c))))
             else ret c))"
  have d: "defineEntity type m w = rest w0"
    unfolding w0_def rest_def c_def using None by (simp add: defineEntity_def Let_def)
  have k: "io_keeps rest"
    unfolding rest_def
    by (intro io_keeps_bnd io_keeps_getConnection io_keeps_tableExists io_keeps_if
          io_keeps_get_dialect io_keeps_store_createTable io_keeps_case_option io_keeps_ret
          io_keeps_createSequence)
  have v: "fst (rest w) = Inr c' \<longrightarrow> c' = c" for w :: "'a world" and c'
    unfolding rest_def
    by (auto simp: bnd_def ret_def split: prod.splits sum.splits if_splits option.splits)
  obtain r w1 where r: "rest w0 = (r, w1)" by (cases "rest w0")
  from io_keepsD [OF k r] have "registry w1 type = Some c" by (simp add: w0_def)
  moreover from v [of w0] r have "\<forall>c'. r = Inr c' \<longrightarrow> c' = c" by simp
  ultimately show ?thesis unfolding d r by simp
qed

text \<open>
  C6. \<open>defineEntity\<close> is idempotent per type name: called with a type name that is
  registered, it returns the registered constructor and leaves the world as it was, so
  it acquires no connection and runs no statement (no \<open>CREATE TABLE\<close>, no
  \<open>CREATE SEQUENCE\<close>), whatever mapping it is given. And a call of \<open>defineEntity\<close> always
  leaves the type registered, with the constructor it returns if it returns one: a
  second call with that type name returns that constructor and changes nothing.
\<close>

theorem defineEntity_idempotent:
  "(registry w type = Some c \<longrightarrow> defineEntity type m w = (Inr c, w)) \<and>
   (\<exists>c1. registry (snd (defineEntity type m w)) type = Some c1 \<and>
         (\<forall>c'. fst (defineEntity type m w) = Inr c' \<longrightarrow> c' = c1) \<and>
         defineEntity type m' (snd (defineEntity type m w)) = (Inr c1, snd (defineEntity type m w)))"
proof
  show "registry w type = Some c \<longrightarrow> defineEntity type m w = (Inr c, w)"
    by (simp add: defineEntity_def)
  from defineEntity_registers [of type m w] obtain c1 where
    "registry (snd (defineEntity type m w)) type = Some c1"
    "\<forall>c'. fst (defineEntity type m w) = Inr c' \<longrightarrow> c' = c1" by blast
  moreover from this(1) have "defineEntity type m' (snd (defineEntity type m w))
        = (Inr c1, snd (defineEntity type m w))"
    by (simp add: defineEntity_def)
  ultimately show "\<exists>c1. registry (snd (defineEntity type m w)) type = Some c1 \<and>
         (\<forall>c'. fst (defineEntity type m w) = Inr c' \<longrightarrow> c' = c1) \<and>
         defineEntity type m' (snd (defineEntity type m w)) = (Inr c1, snd (defineEntity type m w))"
    by blast
qed

theorem defineEntity_idempotent_witness:
  "registry (demo_world (\<lambda>n. False) []) ''Person'' = Some \<lparr>ctype = ''Person'', cmapping = person_mapping\<rparr>
   \<and> defineEntity ''Person'' pet_mapping (demo_world (\<lambda>n. False) [])
       = (Inr \<lparr>ctype = ''Person'', cmapping = person_mapping\<rparr>, demo_world (\<lambda>n. False) [])
   \<and> registry (demo_world (\<lambda>n. False) []) ''Pet'' = None
   \<and> fst (defineEntity ''Pet'' pet_mapping (demo_world (\<lambda>n. False) []))
       = Inr \<lparr>ctype = ''Pet'', cmapping = pet_mapping\<rparr>
   \<and> defineEntity ''Pet'' person_mapping (snd (defineEntity ''Pet'' pet_mapping (demo_world (\<lambda>n. False) [])))
       = (Inr \<lparr>ctype = ''Pet'', cmapping = pet_mapping\<rparr>,
          snd (defineEntity ''Pet'' pet_mapping (demo_world (\<lambda>n. False) [])))"
  using defineEntity_idempotent [of "demo_world (\<lambda>n. False) []" "''Person''"
      "\<lparr>ctype = ''Person'', cmapping = person_mapping\<rparr>" pet_mapping person_mapping]
    defineEntity_idempotent [of "demo_world (\<lambda>n. False) []" "''Pet''"
      "\<lparr>ctype = ''Pet'', cmapping = pet_mapping\<rparr>" pet_mapping person_mapping]
  by (simp add: run_defs demo_defs defineEntity_def tableExists_def getTables_def getColumns_def
      getPrimaryKeys_def pattern_or_all_def store_createTable_def createTable_def
      createTable_sql_def column_clause_def column_type_of_def primary_key_clause_def
      column_or_name_def numeral_eq_Suc Let_def pet_mapping_def)

section \<open>save\<close>

lemma save_element_spec:
  "save_element ssave skey v =
     bnd (for_each ssave (element_storables v)) (\<lambda>u. ret (element_key skey v))"
  by (cases v) (simp_all add: save_element_def bnd_ret_left bnd_assoc)

lemma map_io_save_element:
  "map_io (save_element ssave skey) vs =
     bnd (for_each ssave (concat (map element_storables vs))) (\<lambda>u. ret (map (element_key skey) vs))"
  by (induction vs)
     (simp_all add: bnd_ret_left bnd_assoc for_each_append save_element_spec)

lemma resolve_value_spec:
  "resolve_value ssave skey v =
     bnd (for_each ssave (nested_storables v)) (\<lambda>u. ret (with_keys skey v))"
  by (cases v) (simp_all add: resolve_value_def bnd_ret_left bnd_assoc map_io_save_element)

lemma updateEntity_spec:
  "(for_each ssave (all_storables props) w = (Inr (), w1)
      \<longrightarrow> updateEntity ssave skey props e w = (Inr True, assigned skey props e, w1)) \<and>
   (for_each ssave (all_storables props) w = (Inl err, w1)
      \<longrightarrow> fst (updateEntity ssave skey props e w) = Inl err \<and>
          snd (snd (updateEntity ssave skey props e w)) = w1)"
proof (induction props arbitrary: e w)
  case Nil
  then show ?case by (simp add: all_storables_def assigned_def ret_def)
next
  case (Cons p props)
  obtain name v where p: "p = (name, v)" by (cases p)
  have a: "all_storables ((name, v) # props) = nested_storables v @ all_storables props"
    by (simp add: all_storables_def)
  obtain r w' where s: "for_each ssave (nested_storables v) w = (r, w')"
    by (cases "for_each ssave (nested_storables v) w")
  have "(for_each ssave (all_storables ((name, v) # props)) w = (Inr (), w1)
      \<longrightarrow> updateEntity ssave skey ((name, v) # props) e w
            = (Inr True, assigned skey ((name, v) # props) e, w1)) \<and>
   (for_each ssave (all_storables ((name, v) # props)) w = (Inl err, w1)
      \<longrightarrow> fst (updateEntity ssave skey ((name, v) # props) e w) = Inl err \<and>
          snd (snd (updateEntity ssave skey ((name, v) # props) e w)) = w1)"
  proof (cases r)
    case (Inl err')
    then show ?thesis using s
      by (simp add: a for_each_append resolve_value_spec bnd_def)
  next
    case (Inr u)
    have rv: "resolve_value ssave skey v w = (Inr (with_keys skey v), w')"
      using s Inr by (simp add: resolve_value_spec bnd_def ret_def)
    have fe: "for_each ssave (all_storables ((name, v) # props)) w = for_each ssave (all_storables props) w'"
      using s Inr by (simp add: a for_each_append bnd_def)
    have as: "assigned skey ((name, v) # props) e
               = assigned skey props (e\<lparr>eprops := (eprops e)(name := with_keys skey v)\<rparr>)"
      by (simp add: assigned_def)
    show ?thesis
      unfolding fe as using Cons.IH [of w' "e\<lparr>eprops := (eprops e)(name := with_keys skey v)\<rparr>"] rv
      by simp
  qed
  then show ?case by (simp add: p)
qed

text \<open>
  C7. \<open>save\<close> first saves every nested persistable object among the property values, each
  by its own \<open>save()\<close>, in the order of the properties, and writes the properties into the
  entity with each such object replaced by its Key; then it calls \<open>update\<close> when the Key of
  the entity has an id and \<open>insert\<close> when it has none, and returns what that call
  returns. When a nested \<open>save()\<close> throws, \<open>save\<close> throws the same and calls neither.
\<close>

theorem save_persists_then_dispatches:
  "(for_each ssave (all_storables props) w = (Inr (), w1)
      \<longrightarrow> save ssave skey props e t w =
            (if isPersistent (keys w1 (ekey e))
             then (case update (assigned skey props e) t w1 of
                     (Inl err, w2) \<Rightarrow> (Inl err, assigned skey props e, w2)
                   | (Inr n, w2) \<Rightarrow> (Inr (Some n), assigned skey props e, w2))
             else (case insert_entity (assigned skey props e) t w1 of
                     (Inl err, w2) \<Rightarrow> (Inl err, assigned skey props e, w2)
                   | (Inr n, w2) \<Rightarrow> (Inr (Some n), assigned skey props e, w2)))) \<and>
   (for_each ssave (all_storables props) w = (Inl err, w1)
      \<longrightarrow> fst (save ssave skey props e t w) = Inl err \<and> snd (snd (save ssave skey props e t w)) = w1)"
proof (intro conjI impI)
  assume a: "for_each ssave (all_storables props) w = (Inr (), w1)"
  with updateEntity_spec [where ssave = ssave and props = props and w = w and ?w1.0 = w1 and skey = skey and e = e]
  have u: "updateEntity ssave skey props e w = (Inr True, assigned skey props e, w1)" by simp
  show "save ssave skey props e t w =
            (if isPersistent (keys w1 (ekey e))
             then (case update (assigned skey props e) t w1 of
                     (Inl err, w2) \<Rightarrow> (Inl err, assigned skey props e, w2)
                   | (Inr n, w2) \<Rightarrow> (Inr (Some n), assigned skey props e, w2))
             else (case insert_entity (assigned skey props e) t w1 of
                     (Inl err, w2) \<Rightarrow> (Inl err, assigned skey props e, w2)
                   | (Inr n, w2) \<Rightarrow> (Inr (Some n), assigned skey props e, w2)))"
    by (rule save_dispatch [OF u])
next
  assume a: "for_each ssave (all_storables props) w = (Inl err, w1)"
  with updateEntity_spec [where ssave = ssave and props = props and w = w and ?w1.0 = w1 and skey = skey and e = e and err = err]
  have u: "fst (updateEntity ssave skey props e w) = Inl err"
          "snd (snd (updateEntity ssave skey props e w)) = w1" by simp_all
  obtain r e' w' where c: "updateEntity ssave skey props e w = (r, e', w')"
    by (cases "updateEntity ssave skey props e w")
  with u have "r = Inl err" "w' = w1" by simp_all
  with c show "fst (save ssave skey props e t w) = Inl err" 
    and "snd (snd (save ssave skey props e t w)) = w1"
    by (simp_all add: save_def)
qed

theorem save_persists_then_dispatches_witness:
  "for_each demo_ssave (all_storables demo_props) (demo_world (\<lambda>n. False) [])
     = (Inr (), snd (for_each demo_ssave (all_storables demo_props) (demo_world (\<lambda>n. False) []))) \<and>
   \<not> isPersistent (keys (snd (for_each demo_ssave (all_storables demo_props) (demo_world (\<lambda>n. False) []))) 0) \<and>
   kid (keys (snd (for_each demo_ssave (all_storables demo_props) (demo_world (\<lambda>n. False) []))) 11) = Num 101 \<and>
   fst (save demo_ssave demo_skey demo_props (ann 0) None (demo_world (\<lambda>n. False) [])) = Inr (Some 1) \<and>
   eprops (fst (snd (save demo_ssave demo_skey demo_props (ann 0) None (demo_world (\<lambda>n. False) []))))
     ''friend'' = KeyV 11 \<and>
   db (snd (snd (save demo_ssave demo_skey demo_props (ann 0) None (demo_world (\<lambda>n. False) []))))
     = [[(1, Num 1), (2, Str ''Bob''), (3, Null)]]"
  using save_persists_then_dispatches [where ssave = demo_ssave and props = demo_props
      and w = "demo_world (\<lambda>n. False) []" and skey = demo_skey and e = "ann 0" and t = None
      and ?w1.0 = "snd (for_each demo_ssave (all_storables demo_props) (demo_world (\<lambda>n. False) []))"]
  by (simp add: run_defs store_defs demo_defs demo_props_def all_storables_def demo_ssave_def
      demo_skey_def assigned_def isPersistent_def)

section \<open>The schema utilities and the connection they are handed\<close>

text \<open>
  The other utilities, and \<open>createTable\<close> once its statement is built, leave the close
  of the connection as the last event, whatever happens in between.
\<close>

lemma try_finally_closes_last:
  "last (trace (snd (try_finally body (bnd close_handle (\<lambda>u. close (Some c))) w))) = Close c"
  by (cases "body w") (simp add: try_finally_def bnd_def close_handle_def ret_def close_def)

lemma schema_utilities_close:
  "last (trace (snd (createSequence conn d sequenceName w))) = Close conn"
  "last (trace (snd (getTables conn w))) = Close conn"
  "last (trace (snd (tableExists conn table w))) = Close conn"
  "last (trace (snd (dropTable conn d table schemaName w))) = Close conn"
  "last (trace (snd (dropSequence conn d sequenceName schemaName w))) = Close conn"
  "createTable_sql d table cols pk = Inr sql
     \<Longrightarrow> last (trace (snd (createTable conn d table cols pk w))) = Close conn"
proof -
  show "last (trace (snd (createSequence conn d sequenceName w))) = Close conn"
    unfolding createSequence_def by (rule try_finally_closes_last)
  show g: "last (trace (snd (getTables conn w))) = Close conn"
    unfolding getTables_def by (rule try_finally_closes_last)
  have "snd (tableExists conn table w) = snd (getTables conn w)"
    by (simp add: tableExists_def bnd_def ret_def split: prod.splits sum.splits)
  then show "last (trace (snd (tableExists conn table w))) = Close conn" using g by simp
  show "last (trace (snd (dropTable conn d table schemaName w))) = Close conn"
    unfolding dropTable_def drop_object_def by (rule try_finally_closes_last)
  show "last (trace (snd (dropSequence conn d sequenceName schemaName w))) = Close conn"
    unfolding dropSequence_def drop_object_def by (rule try_finally_closes_last)
  show "createTable_sql d table cols pk = Inr sql
     \<Longrightarrow> last (trace (snd (createTable conn d table cols pk w))) = Close conn"
    unfolding createTable_def by (simp add: try_finally_closes_last)
qed

text \<open>
  C8. Every schema utility closes the connection it is handed on every exit path. This
  fails for \<open>createTable\<close>: with a column whose type the dialect does not know, it throws
  while it builds the statement, before its \<open>try\<close>, and the connection it was handed
  (acquired, here, as connection 0) is not closed: the world is left as it was.
\<close>

theorem createTable_leaves_connection_open:
  "createTable 0 demo_dialect ''person'' [text_column] (Some (PkList [''id'']))
     ((demo_world (\<lambda>n. False) [])\<lparr>trace := [Acquire 0]\<rparr>)
   = (Inl (JsError ''Unable to determine data type, code: text''),
      (demo_world (\<lambda>n. False) [])\<lparr>trace := [Acquire 0]\<rparr>)"
  by (simp add: createTable_def createTable_sql_def column_clause_def column_type_of_def
      demo_dialect_def text_column_def throw_def)

section \<open>Operations in a transaction\<close>

text \<open>
  C9. Once the dialect is determined, and for a transaction whose connection was handed
  out before the call: when \<open>insert\<close>, \<open>update\<close> or \<open>remove\<close> is given a transaction and
  returns normally (its statement has run), the Key it was about is appended to the
  accumulator of that transaction that belongs to the operation (\<open>inserted\<close>, \<open>updated\<close>,
  \<open>deleted\<close>) and nothing else of the transaction changes; the driver was called on the
  connection of the transaction, and the call did not close that connection.
\<close>

theorem transaction_accumulators:
  assumes "dialect_cache w \<noteq> None" and "tconn (txns w t) < next_conn w"
  shows "(fst (insert_entity e (Some t) w) = Inr r \<longrightarrow>
            txns (snd (insert_entity e (Some t) w))
              = (txns w)(t := (txns w t)\<lparr>inserted := inserted (txns w t) @ [ekey e]\<rparr>) \<and>
            Use (tconn (txns w t)) \<in> set (new_events w (snd (insert_entity e (Some t) w))) \<and>
            Close (tconn (txns w t)) \<notin> set (new_events w (snd (insert_entity e (Some t) w)))) \<and>
         (fst (update e (Some t) w) = Inr r \<longrightarrow>
            txns (snd (update e (Some t) w))
              = (txns w)(t := (txns w t)\<lparr>updated := updated (txns w t) @ [ekey e]\<rparr>) \<and>
            Use (tconn (txns w t)) \<in> set (new_events w (snd (update e (Some t) w))) \<and>
            Close (tconn (txns w t)) \<notin> set (new_events w (snd (update e (Some t) w)))) \<and>
         (fst (remove k (Some t) w) = Inr r \<longrightarrow>
            txns (snd (remove k (Some t) w))
              = (txns w)(t := (txns w t)\<lparr>deleted := deleted (txns w t) @ [k]\<rparr>) \<and>
            Use (tconn (txns w t)) \<in> set (new_events w (snd (remove k (Some t) w))) \<and>
            Close (tconn (txns w t)) \<notin> set (new_events w (snd (remove k (Some t) w))))"
proof (intro conjI impI)
  assume ok: "fst (insert_entity e (Some t) w) = Inr r"
  then have "insert_entity e (Some t) w = (Inr r, snd (insert_entity e (Some t) w))"
    by (metis prod.collapse)
  from io_commitsD [OF insert_commits this]
  show "txns (snd (insert_entity e (Some t) w))
              = (txns w)(t := (txns w t)\<lparr>inserted := inserted (txns w t) @ [ekey e]\<rparr>)"
    by (simp add: pushed_inserted_def)
  from insert_txn_events [OF assms(1) ok assms(2)]
  show "Use (tconn (txns w t)) \<in> set (new_events w (snd (insert_entity e (Some t) w)))"
    and "Close (tconn (txns w t)) \<notin> set (new_events w (snd (insert_entity e (Some t) w)))"
    by simp_all
next
  assume ok: "fst (update e (Some t) w) = Inr r"
  then have "update e (Some t) w = (Inr r, snd (update e (Some t) w))"
    by (metis prod.collapse)
  from io_commitsD [OF update_commits this]
  show "txns (snd (update e (Some t) w))
              = (txns w)(t := (txns w t)\<lparr>updated := updated (txns w t) @ [ekey e]\<rparr>)"
    by (simp add: pushed_updated_def)
  from update_txn_events [OF assms(1) ok]
  show "Use (tconn (txns w t)) \<in> set (new_events w (snd (update e (Some t) w)))"
    and "Close (tconn (txns w t)) \<notin> set (new_events w (snd (update e (Some t) w)))"
    by auto
next
  assume ok: "fst (remove k (Some t) w) = Inr r"
  then have "remove k (Some t) w = (Inr r, snd (remove k (Some t) w))"
    by (metis prod.collapse)
  from io_commitsD [OF remove_commits this]
  show "txns (snd (remove k (Some t) w))
              = (txns w)(t := (txns w t)\<lparr>deleted := deleted (txns w t) @ [k]\<rparr>)"
    by (simp add: pushed_deleted_def)
  from remove_txn_events [OF assms(1) ok]
  show "Use (tconn (txns w t)) \<in> set (new_events w (snd (remove k (Some t) w)))"
    and "Close (tconn (txns w t)) \<notin> set (new_events w (snd (remove k (Some t) w)))"
    by auto
qed

theorem transaction_accumulators_witness:
  "dialect_cache (demo_world (\<lambda>n. False) []) \<noteq> None \<and>
   tconn (txns (demo_world (\<lambda>n. False) []) 0) < next_conn (demo_world (\<lambda>n. False) []) \<and>
   fst (insert_entity (ann 0) (Some 0) (demo_world (\<lambda>n. False) [])) = Inr 1 \<and>
   txns (snd (insert_entity (ann 0) (Some 0) (demo_world (\<lambda>n. False) []))) 0
     = \<lparr>tconn = 0, inserted = [0], updated = [], deleted = []\<rparr> \<and>
   Close 0 \<notin> set (new_events (demo_world (\<lambda>n. False) [])
                    (snd (insert_entity (ann 0) (Some 0) (demo_world (\<lambda>n. False) []))))"
  using transaction_accumulators [where w = "demo_world (\<lambda>n. False) []" and t = 0 and e = "ann 0"
      and r = 1 and k = 1]
  by (simp add: run_defs store_defs demo_defs)

section \<open>A statement that fails\<close>



end
